theory Spec2Isabelle
  imports Complex_Main
begin

section \<open>Numbers and their rendering in template strings\<close>

text \<open>
  The overlay code computes with JavaScript numbers. They are modelled as rationals
  with exact arithmetic: \<open>Math.max\<close>, \<open>Math.min\<close>, \<open>+\<close>, \<open>-\<close>, \<open>*\<close> and \<open>/ 2\<close> are the
  operations of \<open>rat\<close>. Rounding of doubles, \<open>NaN\<close> and the infinities are outside the
  model.

  A template string \<open>`${n}`\<close> renders an integral number as its decimal digits, with a
  leading minus sign when it is negative (JavaScript does so below \<open>10^21\<close>). A number
  with a fractional part is rendered as integer part, a dot and the digits of its
  decimal expansion (at most twenty of them); for the doubles that have a short
  expansion (such as 2.5) this is what JavaScript prints.
\<close>

definition digit_char :: "nat \<Rightarrow> char" where
  "digit_char n = ''0123456789'' ! (n mod 10)"

fun nat_str :: "nat \<Rightarrow> string" where
  "nat_str n = (if n < 10 then [digit_char n] else nat_str (n div 10) @ [digit_char (n mod 10)])"

declare nat_str.simps [simp del]

fun frac_str :: "nat \<Rightarrow> rat \<Rightarrow> string" where
  "frac_str 0 f = []"
| "frac_str (Suc k) f =
     (if f = 0 then []
      else digit_char (nat \<lfloor>f * 10\<rfloor>) # frac_str k (f * 10 - of_int \<lfloor>f * 10\<rfloor>))"

definition num_str :: "rat \<Rightarrow> string" where
  "num_str q =
     (let a = \<bar>q\<bar>; ip = \<lfloor>a\<rfloor>; f = a - of_int ip
      in (if q < 0 then ''-'' else '''') @ nat_str (nat ip) @
         (if f = 0 then '''' else ''.'' @ frac_str 20 f))"

section \<open>Overlay path generator (useOverlay)\<close>

text \<open>The four fields of a \<open>DOMRect\<close> that the code reads: x, y, width and height.\<close>

record DOMRect =
  rect_x :: rat
  rect_y :: rat
  rect_width :: rat
  rect_height :: rat

text \<open>\<open>OverlayOptions\<close>: every field is optional.\<close>

record OverlayOptions =
  padding :: "rat option"
  radius :: "rat option"
  opacity :: "rat option"
  color :: "string option"
  animate :: "bool option"
  animationDuration :: "rat option"

text \<open>\<open>Required<OverlayOptions>\<close>: every field is present.\<close>

record RequiredOverlayOptions =
  r_padding :: rat
  r_radius :: rat
  r_opacity :: rat
  r_color :: string
  r_animate :: bool
  r_animationDuration :: rat

text \<open>The part of \<open>window\<close> that the overlay reads.\<close>

record Window =
  innerWidth :: rat
  innerHeight :: rat

text \<open>The state held in the closure of \<open>useOverlay\<close>.\<close>

record overlay =
  path :: string
  isVisible :: bool
  currentOptions :: RequiredOverlayOptions
  currentTargetRect :: "DOMRect option"

definition no_options :: OverlayOptions where
  "no_options = \<lparr>padding = None, radius = None, opacity = None, color = None,
                  animate = None, animationDuration = None\<rparr>"

definition useOverlay :: overlay where
  "useOverlay =
     \<lparr>path = '''', isVisible = False,
      currentOptions = \<lparr>r_padding = 8, r_radius = 4, r_opacity = 3 / 4, r_color = ''black'',
                        r_animate = True, r_animationDuration = 300\<rparr>,
      currentTargetRect = None\<rparr>"

text \<open>
  The effective corner radius of \<open>generateOverlayPath\<close>:
  \<open>Math.max(0, Math.min(radius, Math.min(width / 2, height / 2)))\<close>.
\<close>

definition clampedRadius :: "rat \<Rightarrow> rat \<Rightarrow> rat \<Rightarrow> rat" where
  "clampedRadius wd ht rad = (let maxRadius = min (wd / 2) (ht / 2) in max 0 (min rad maxRadius))"

text \<open>
  The specification writes the effective radius as \<open>clamp(radius, 0, hi)\<close>: the value
  \<open>radius\<close> brought into the range from \<open>0\<close> to \<open>hi\<close>.
\<close>

definition clamp :: "rat \<Rightarrow> rat \<Rightarrow> rat \<Rightarrow> rat" where
  "clamp v lo hi = max lo (min v hi)"

definition outerPath :: "rat \<Rightarrow> rat \<Rightarrow> string" where
  "outerPath viewportWidth viewportHeight =
     ''M'' @ num_str viewportWidth @ '',0 L0,0 L0,'' @ num_str viewportHeight @
     '' L'' @ num_str viewportWidth @ '','' @ num_str viewportHeight @
     '' L'' @ num_str viewportWidth @ '',0 Z''"

definition innerPath :: "rat \<Rightarrow> rat \<Rightarrow> rat \<Rightarrow> rat \<Rightarrow> rat \<Rightarrow> string" where
  "innerPath cx cy wd ht r =
     (if r > 0
      then ''M'' @ num_str (cx + r) @ '','' @ num_str cy @ '' '' @
           ''h'' @ num_str (wd - 2 * r) @ '' '' @
           ''a'' @ num_str r @ '','' @ num_str r @ '' 0 0 1 '' @ num_str r @ '','' @ num_str r @ '' '' @
           ''v'' @ num_str (ht - 2 * r) @ '' '' @
           ''a'' @ num_str r @ '','' @ num_str r @ '' 0 0 1 -'' @ num_str r @ '','' @ num_str r @ '' '' @
           ''h-'' @ num_str (wd - 2 * r) @ '' '' @
           ''a'' @ num_str r @ '','' @ num_str r @ '' 0 0 1 -'' @ num_str r @ '',-'' @ num_str r @ '' '' @
           ''v-'' @ num_str (ht - 2 * r) @ '' '' @
           ''a'' @ num_str r @ '','' @ num_str r @ '' 0 0 1 '' @ num_str r @ '',-'' @ num_str r @ '' '' @
           ''Z''
      else ''M'' @ num_str cx @ '','' @ num_str cy @ '' '' @
           ''h'' @ num_str wd @ '' '' @
           ''v'' @ num_str ht @ '' '' @
           ''h-'' @ num_str wd @ '' '' @
           ''v-'' @ num_str ht @ '' '' @
           ''Z'')"

definition generateOverlayPath :: "rat \<Rightarrow> rat \<Rightarrow> rat \<Rightarrow> rat \<Rightarrow> rat \<Rightarrow> rat \<Rightarrow> rat \<Rightarrow> string" where
  "generateOverlayPath viewportWidth viewportHeight cx cy wd ht rad =
     (let r = clampedRadius wd ht rad
      in outerPath viewportWidth viewportHeight @ '' '' @ innerPath cx cy wd ht r)"

text \<open>\<open>{ ...currentOptions, ...options }\<close>: a field that is given replaces the stored one.\<close>

definition mergeOptions :: "RequiredOverlayOptions \<Rightarrow> OverlayOptions \<Rightarrow> RequiredOverlayOptions" where
  "mergeOptions cur opts =
     \<lparr>r_padding = (case padding opts of None \<Rightarrow> r_padding cur | Some v \<Rightarrow> v),
      r_radius = (case radius opts of None \<Rightarrow> r_radius cur | Some v \<Rightarrow> v),
      r_opacity = (case opacity opts of None \<Rightarrow> r_opacity cur | Some v \<Rightarrow> v),
      r_color = (case color opts of None \<Rightarrow> r_color cur | Some v \<Rightarrow> v),
      r_animate = (case animate opts of None \<Rightarrow> r_animate cur | Some v \<Rightarrow> v),
      r_animationDuration =
        (case animationDuration opts of None \<Rightarrow> r_animationDuration cur | Some v \<Rightarrow> v)\<rparr>"

text \<open>The cutout bounds that \<open>calculatePath\<close> computes from the target and the padding.\<close>

definition cutoutX :: "DOMRect \<Rightarrow> rat \<Rightarrow> rat" where
  "cutoutX t pad = max 0 (rect_x t - pad)"

definition cutoutY :: "DOMRect \<Rightarrow> rat \<Rightarrow> rat" where
  "cutoutY t pad = max 0 (rect_y t - pad)"

definition cutoutWidth :: "Window \<Rightarrow> DOMRect \<Rightarrow> rat \<Rightarrow> rat" where
  "cutoutWidth w t pad = max 0 (min (rect_width t + pad * 2) (innerWidth w - cutoutX t pad))"

definition cutoutHeight :: "Window \<Rightarrow> DOMRect \<Rightarrow> rat \<Rightarrow> rat" where
  "cutoutHeight w t pad = max 0 (min (rect_height t + pad * 2) (innerHeight w - cutoutY t pad))"

definition calculatePath :: "Window \<Rightarrow> DOMRect option \<Rightarrow> OverlayOptions \<Rightarrow> overlay \<Rightarrow> overlay" where
  "calculatePath w targetRect opts s =
     (let s1 = s\<lparr>currentOptions := mergeOptions (currentOptions s) opts\<rparr>
      in case targetRect of
           None \<Rightarrow> s1\<lparr>path := ''''\<rparr>
         | Some t \<Rightarrow>
             (let s2 = s1\<lparr>currentTargetRect := Some t\<rparr>;
                  pad = r_padding (currentOptions s2);
                  rad = r_radius (currentOptions s2);
                  viewportW = innerWidth w;
                  viewportH = innerHeight w;
                  cx = cutoutX t pad;
                  cy = cutoutY t pad;
                  wd = cutoutWidth w t pad;
                  ht = cutoutHeight w t pad
              in if wd \<le> 0 \<or> ht \<le> 0 then s2\<lparr>path := ''''\<rparr>
                 else s2\<lparr>path := generateOverlayPath viewportW viewportH cx cy wd ht rad\<rparr>))"

definition show_overlay :: "Window \<Rightarrow> DOMRect \<Rightarrow> OverlayOptions \<Rightarrow> overlay \<Rightarrow> overlay" where
  "show_overlay w targetRect opts s = (calculatePath w (Some targetRect) opts s)\<lparr>isVisible := True\<rparr>"

definition hide :: "overlay \<Rightarrow> overlay" where
  "hide s = s\<lparr>isVisible := False, currentTargetRect := None\<rparr>"

definition refresh :: "Window \<Rightarrow> DOMRect \<Rightarrow> OverlayOptions \<Rightarrow> overlay \<Rightarrow> overlay" where
  "refresh w targetRect opts s =
     (if isVisible s then calculatePath w (Some targetRect) opts s else s)"

definition getOptions :: "overlay \<Rightarrow> RequiredOverlayOptions" where
  "getOptions s = currentOptions s"

text \<open>The listener for the window's \<open>resize\<close> event.\<close>

definition handleResize_overlay :: "Window \<Rightarrow> overlay \<Rightarrow> overlay" where
  "handleResize_overlay w s =
     (if isVisible s \<and> currentTargetRect s \<noteq> None
      then calculatePath w (currentTargetRect s) no_options s else s)"

section \<open>Tour sequencer (useTour)\<close>

datatype TourStatus = Idle | Active | Paused | Completed

datatype Direction = Next | Previous

text \<open>A DOM node is known by its identity.\<close>

type_synonym HTMLElement = nat

text \<open>
  The target of a step is a selector string or a function; the function is modelled by
  the element (or \<open>null\<close>) it returns when it is called.
\<close>

datatype Target = Selector string | Resolver "HTMLElement option"

text \<open>
  The fields of a step that \<open>useTour\<close> reads. A lifecycle callback is modelled by
  whether it is supplied; a supplied callback returns normally, does not call the
  controls, and an awaited one settles at once.
\<close>

record TourStep =
  step_id :: string
  target :: Target
  onBeforeShow :: bool
  onAfterShow :: bool
  onBeforeHide :: bool
  onAfterHide :: bool
  autoAdvance :: "int option"

text \<open>The merged options \<open>opts\<close> (defaults overridden by the caller's options).\<close>

record TourOptions =
  steps :: "TourStep list"
  keyboardNavigation :: bool
  closeOnClickOutside :: bool
  closeOnEscape :: bool
  scrollToTarget :: bool
  onStart :: bool
  onComplete :: bool
  onSkip :: bool
  onStepChange :: bool

text \<open>What the code asks of the document at the time of a call.\<close>

record Document =
  querySelector :: "string \<Rightarrow> HTMLElement option"
  getBoundingClientRect :: "HTMLElement \<Rightarrow> DOMRect"
  contains :: "HTMLElement \<Rightarrow> HTMLElement \<Rightarrow> bool"

text \<open>The calls that leave \<open>useTour\<close>: callbacks of the steps and of the tour, and DOM calls.\<close>

datatype Call =
    BeforeHide TourStep
  | BeforeShow TourStep
  | AfterHide TourStep
  | AfterShow TourStep
  | StepChange TourStep Direction
  | Start
  | Skip
  | Complete
  | TargetFn TourStep
  | QuerySelector string
  | ScrollIntoView HTMLElement

text \<open>
  The refs of \<open>useTour\<close> (the reactive object \<open>state\<close> is a copy of them and of the
  computed values), and what the code has handed to the environment: \<open>calls\<close> logs
  every outgoing call, oldest first, each with the value of \<open>currentStepIndex\<close> at the
  time of the call; \<open>animationFrames\<close> holds the elements whose re-measuring callback is
  registered with \<open>requestAnimationFrame\<close>; \<open>timeouts\<close> holds the pending auto-advance
  timers as pairs of delay and step index.
\<close>

record tour =
  status :: TourStatus
  currentStepIndex :: int
  targetElement :: "HTMLElement option"
  targetRect :: "DOMRect option"
  calls :: "(int \<times> Call) list"
  animationFrames :: "HTMLElement list"
  timeouts :: "(int \<times> int) list"

definition useTour :: tour where
  "useTour = \<lparr>status = Idle, currentStepIndex = - 1, targetElement = None, targetRect = None,
               calls = [], animationFrames = [], timeouts = []\<rparr>"

definition call :: "Call \<Rightarrow> tour \<Rightarrow> tour" where
  "call c s = s\<lparr>calls := calls s @ [(currentStepIndex s, c)]\<rparr>"

text \<open>\<open>opts.steps[index]\<close>, which is \<open>undefined\<close> out of range.\<close>

definition stepAt :: "TourOptions \<Rightarrow> int \<Rightarrow> TourStep option" where
  "stepAt opts i =
     (if 0 \<le> i \<and> i < int (length (steps opts)) then Some (steps opts ! nat i) else None)"

definition currentStep :: "TourOptions \<Rightarrow> tour \<Rightarrow> TourStep option" where
  "currentStep opts s =
     (if currentStepIndex s \<ge> 0 \<and> currentStepIndex s < int (length (steps opts))
      then Some (steps opts ! nat (currentStepIndex s)) else None)"

definition totalSteps :: "TourOptions \<Rightarrow> int" where
  "totalSteps opts = int (length (steps opts))"

definition isFirstStep :: "tour \<Rightarrow> bool" where
  "isFirstStep s = (currentStepIndex s = 0)"

definition isLastStep :: "TourOptions \<Rightarrow> tour \<Rightarrow> bool" where
  "isLastStep opts s = (currentStepIndex s = int (length (steps opts)) - 1)"

definition progress :: "TourOptions \<Rightarrow> tour \<Rightarrow> rat" where
  "progress opts s =
     (if totalSteps opts > 0
      then (of_int (currentStepIndex s + 1) / of_int (totalSteps opts)) * 100 else 0)"

definition isActive :: "tour \<Rightarrow> bool" where
  "isActive s = (status s = Active)"

definition resolveTarget :: "Document \<Rightarrow> TourStep \<Rightarrow> tour \<Rightarrow> HTMLElement option \<times> tour" where
  "resolveTarget doc step s =
     (case target step of
        Resolver el \<Rightarrow> (el, call (TargetFn step) s)
      | Selector sel \<Rightarrow> (querySelector doc sel, call (QuerySelector sel) s))"

definition updateTarget :: "TourOptions \<Rightarrow> Document \<Rightarrow> tour \<Rightarrow> tour" where
  "updateTarget opts doc s =
     (case currentStep opts s of
        None \<Rightarrow> s\<lparr>targetElement := None, targetRect := None\<rparr>
      | Some step \<Rightarrow>
          (let (el, s1) = resolveTarget doc step s;
               s2 = s1\<lparr>targetElement := el\<rparr>
           in case el of
                Some e \<Rightarrow>
                  (let s3 = s2\<lparr>targetRect := Some (getBoundingClientRect doc e)\<rparr>
                   in if scrollToTarget opts
                      then (call (ScrollIntoView e) s3)
                             \<lparr>animationFrames := animationFrames s3 @ [e]\<rparr>
                      else s3)
              | None \<Rightarrow> s2\<lparr>targetRect := None\<rparr>))"

text \<open>
  The environment runs the callbacks registered with \<open>requestAnimationFrame\<close>: each sets
  \<open>targetRect\<close> to the rectangle of its element.
\<close>

definition runAnimationFrame :: "Document \<Rightarrow> tour \<Rightarrow> tour" where
  "runAnimationFrame doc s =
     foldl (\<lambda>s' e. s'\<lparr>targetRect := Some (getBoundingClientRect doc e)\<rparr>)
       (s\<lparr>animationFrames := []\<rparr>) (animationFrames s)"

text \<open>
  \<open>setStep\<close> is an async function: it runs up to its first \<open>await\<close>, there its caller
  goes on, and the rest of \<open>setStep\<close> runs when the awaited callback has settled. The
  calls that the caller makes after it has called \<open>setStep\<close> are the parameter \<open>after\<close>.
  No other control is invoked while a transition is suspended.
\<close>

definition callAll :: "Call list \<Rightarrow> tour \<Rightarrow> tour" where
  "callAll cs s = foldl (\<lambda>s' c. call c s') s cs"

text \<open>The part of \<open>setStep\<close> from the assignment to \<open>currentStepIndex\<close> on.\<close>

definition commitStep ::
  "TourOptions \<Rightarrow> Document \<Rightarrow> int \<Rightarrow> Direction \<Rightarrow> TourStep option \<Rightarrow> TourStep \<Rightarrow> tour \<Rightarrow> tour" where
  "commitStep opts doc index direction prevStep nextStep s =
     (let s1 = s\<lparr>currentStepIndex := index\<rparr>;
          s2 = updateTarget opts doc s1;
          s3 = (case prevStep of
                  Some p \<Rightarrow> if onAfterHide p then call (AfterHide p) s2 else s2
                | None \<Rightarrow> s2);
          s4 = (if onAfterShow nextStep then call (AfterShow nextStep) s3 else s3);
          s5 = (if onStepChange opts then call (StepChange nextStep direction) s4 else s4)
      in case autoAdvance nextStep of
           Some ms \<Rightarrow> if ms > 0 then s5\<lparr>timeouts := timeouts s5 @ [(ms, index)]\<rparr> else s5
         | None \<Rightarrow> s5)"

definition setStep ::
  "TourOptions \<Rightarrow> Document \<Rightarrow> int \<Rightarrow> Direction \<Rightarrow> Call list \<Rightarrow> tour \<Rightarrow> tour" where
  "setStep opts doc index direction after s =
     (let prevStep = currentStep opts s
      in case stepAt opts index of
           None \<Rightarrow> callAll after s
         | Some nextStep \<Rightarrow>
             (case (case prevStep of
                      Some p \<Rightarrow> if onBeforeHide p then Some p else None
                    | None \<Rightarrow> None) of
                Some p \<Rightarrow>
                  (let s1 = call (BeforeHide p) s;
                       s2 = callAll after s1;
                       s3 = (if onBeforeShow nextStep then call (BeforeShow nextStep) s2 else s2)
                   in commitStep opts doc index direction prevStep nextStep s3)
              | None \<Rightarrow>
                  if onBeforeShow nextStep
                  then (let s1 = call (BeforeShow nextStep) s;
                            s2 = callAll after s1
                        in commitStep opts doc index direction prevStep nextStep s2)
                  else callAll after (commitStep opts doc index direction prevStep nextStep s)))"

subsection \<open>The controls\<close>

definition complete_tour :: "TourOptions \<Rightarrow> tour \<Rightarrow> tour" where
  "complete_tour opts s =
     (let s1 = s\<lparr>status := Completed, currentStepIndex := - 1,
                  targetElement := None, targetRect := None\<rparr>
      in if onComplete opts then call Complete s1 else s1)"

definition start :: "TourOptions \<Rightarrow> Document \<Rightarrow> int \<Rightarrow> tour \<Rightarrow> tour" where
  "start opts doc stepIndex s =
     (if length (steps opts) = 0 then s
      else setStep opts doc stepIndex Next (if onStart opts then [Start] else [])
             (s\<lparr>status := Active\<rparr>))"

definition stop :: "tour \<Rightarrow> tour" where
  "stop s = s\<lparr>status := Idle, currentStepIndex := - 1, targetElement := None, targetRect := None\<rparr>"

definition next_tour :: "TourOptions \<Rightarrow> Document \<Rightarrow> tour \<Rightarrow> tour" where
  "next_tour opts doc s =
     (if status s \<noteq> Active then s
      else if isLastStep opts s then complete_tour opts s
      else setStep opts doc (currentStepIndex s + 1) Next [] s)"

definition previous :: "TourOptions \<Rightarrow> Document \<Rightarrow> tour \<Rightarrow> tour" where
  "previous opts doc s =
     (if status s \<noteq> Active \<or> isFirstStep s then s
      else setStep opts doc (currentStepIndex s - 1) Previous [] s)"

text \<open>\<open>Array.prototype.findIndex\<close>: the first position that satisfies the test, or -1.\<close>

fun findIndex :: "('a \<Rightarrow> bool) \<Rightarrow> 'a list \<Rightarrow> int" where
  "findIndex P [] = - 1"
| "findIndex P (a # as) =
     (if P a then 0 else (let k = findIndex P as in if k = - 1 then - 1 else k + 1))"

datatype IndexOrId = ByIndex int | ById string

definition goTo :: "TourOptions \<Rightarrow> Document \<Rightarrow> IndexOrId \<Rightarrow> tour \<Rightarrow> tour" where
  "goTo opts doc stepIndexOrId s =
     (if status s \<noteq> Active then s
      else (case (case stepIndexOrId of
                    ById ident \<Rightarrow>
                      (let index = findIndex (\<lambda>st. step_id st = ident) (steps opts)
                       in if index = - 1 then None else Some index)
                  | ByIndex index \<Rightarrow> Some index) of
              None \<Rightarrow> s
            | Some index \<Rightarrow>
                if index \<ge> 0 \<and> index < int (length (steps opts))
                then (let direction = (if index > currentStepIndex s then Next else Previous)
                      in setStep opts doc index direction [] s)
                else s))"

definition skip :: "TourOptions \<Rightarrow> tour \<Rightarrow> tour" where
  "skip opts s =
     (let s1 = s\<lparr>status := Idle, currentStepIndex := - 1,
                  targetElement := None, targetRect := None\<rparr>
      in if onSkip opts then call Skip s1 else s1)"

definition pause :: "tour \<Rightarrow> tour" where
  "pause s = (if status s = Active then s\<lparr>status := Paused\<rparr> else s)"

definition resume :: "tour \<Rightarrow> tour" where
  "resume s = (if status s = Paused then s\<lparr>status := Active\<rparr> else s)"

subsection \<open>Timers and event listeners\<close>

text \<open>The body of the auto-advance timer that \<open>setStep\<close> set for step \<open>index\<close>.\<close>

definition autoAdvanceTimer :: "TourOptions \<Rightarrow> Document \<Rightarrow> int \<Rightarrow> tour \<Rightarrow> tour" where
  "autoAdvanceTimer opts doc index s =
     (if status s = Active \<and> currentStepIndex s = index then next_tour opts doc s else s)"

text \<open>The environment fires the pending timer at position \<open>k\<close>.\<close>

definition runTimeout :: "TourOptions \<Rightarrow> Document \<Rightarrow> nat \<Rightarrow> tour \<Rightarrow> tour" where
  "runTimeout opts doc k s =
     (if k < length (timeouts s)
      then autoAdvanceTimer opts doc (snd (timeouts s ! k))
             (s\<lparr>timeouts := take k (timeouts s) @ drop (Suc k) (timeouts s)\<rparr>)
      else s)"

datatype Key = ArrowRight | Enter | ArrowLeft | Escape | OtherKey

definition handleKeydown :: "TourOptions \<Rightarrow> Document \<Rightarrow> Key \<Rightarrow> tour \<Rightarrow> tour" where
  "handleKeydown opts doc key s =
     (if \<not> keyboardNavigation opts \<or> status s \<noteq> Active then s
      else (case key of
              ArrowRight \<Rightarrow> next_tour opts doc s
            | Enter \<Rightarrow> next_tour opts doc s
            | ArrowLeft \<Rightarrow> previous opts doc s
            | Escape \<Rightarrow> if closeOnEscape opts then skip opts s else s
            | OtherKey \<Rightarrow> s))"

definition handleClickOutside :: "TourOptions \<Rightarrow> Document \<Rightarrow> HTMLElement \<Rightarrow> tour \<Rightarrow> tour" where
  "handleClickOutside opts doc clicked s =
     (if \<not> closeOnClickOutside opts \<or> status s \<noteq> Active then s
      else (case targetElement s of
              Some el \<Rightarrow> if \<not> contains doc el clicked then skip opts s else s
            | None \<Rightarrow> s))"

definition handleResize :: "TourOptions \<Rightarrow> Document \<Rightarrow> tour \<Rightarrow> tour" where
  "handleResize opts doc s = (if status s = Active then updateTarget opts doc s else s)"

text \<open>The states of a tour: what the controls, the listeners and the environment can reach.\<close>

inductive reachable :: "TourOptions \<Rightarrow> tour \<Rightarrow> bool" for opts :: TourOptions where
  r_init: "reachable opts useTour"
| r_start: "reachable opts s \<Longrightarrow> reachable opts (start opts doc i s)"
| r_stop: "reachable opts s \<Longrightarrow> reachable opts (stop s)"
| r_next: "reachable opts s \<Longrightarrow> reachable opts (next_tour opts doc s)"
| r_previous: "reachable opts s \<Longrightarrow> reachable opts (previous opts doc s)"
| r_goTo: "reachable opts s \<Longrightarrow> reachable opts (goTo opts doc t s)"
| r_skip: "reachable opts s \<Longrightarrow> reachable opts (skip opts s)"
| r_pause: "reachable opts s \<Longrightarrow> reachable opts (pause s)"
| r_resume: "reachable opts s \<Longrightarrow> reachable opts (resume s)"
| r_complete: "reachable opts s \<Longrightarrow> reachable opts (complete_tour opts s)"
| r_keydown: "reachable opts s \<Longrightarrow> reachable opts (handleKeydown opts doc key s)"
| r_click: "reachable opts s \<Longrightarrow> reachable opts (handleClickOutside opts doc el s)"
| r_resize: "reachable opts s \<Longrightarrow> reachable opts (handleResize opts doc s)"
| r_frame: "reachable opts s \<Longrightarrow> reachable opts (runAnimationFrame doc s)"
| r_timeout: "reachable opts s \<Longrightarrow> reachable opts (runTimeout opts doc k s)"

subsection \<open>Fixtures of the test suite\<close>

text \<open>
  The tests build steps with an id, the selector \<open>#test-target\<close> and no callbacks, run
  them with the default options, and put one element with that id into the document;
  the test environment measures every element as the zero rectangle.
\<close>

definition test_step :: "string \<Rightarrow> TourStep" where
  "test_step ident =
     \<lparr>step_id = ident, target = Selector ''#test-target'', onBeforeShow = False,
      onAfterShow = False, onBeforeHide = False, onAfterHide = False, autoAdvance = None\<rparr>"

definition test_options :: "TourStep list \<Rightarrow> TourOptions" where
  "test_options sts =
     \<lparr>steps = sts, keyboardNavigation = True, closeOnClickOutside = False,
      closeOnEscape = True, scrollToTarget = True, onStart = False, onComplete = False,
      onSkip = False, onStepChange = False\<rparr>"

definition test_document :: Document where
  "test_document =
     \<lparr>querySelector = (\<lambda>sel. if sel = ''#test-target'' then Some 0 else None),
      getBoundingClientRect =
        (\<lambda>el. \<lparr>rect_x = 0, rect_y = 0, rect_width = 0, rect_height = 0\<rparr>),
      contains = (\<lambda>el other. el = other)\<rparr>"

section \<open>Properties of the overlay path generator\<close>

text \<open>
  Claim C1. In a viewport of 1024 by 768, \<open>show\<close> of the target (100, 100, 200, 50) with
  the default padding 8 and radius 4 gives a path that starts with the outer sub-path
  \<open>M1024,0 L0,0 L0,768 L1024,768 L1024,0 Z\<close>, followed by an inner sub-path that begins
  with \<open>M96,92\<close>.
\<close>

theorem C1_show_default_path:
  "path (show_overlay \<lparr>innerWidth = 1024, innerHeight = 768\<rparr>
           \<lparr>rect_x = 100, rect_y = 100, rect_width = 200, rect_height = 50\<rparr>
           no_options useOverlay) =
   ''M1024,0 L0,0 L0,768 L1024,768 L1024,0 Z'' @ '' '' @ ''M96,92'' @
   '' h208 a4,4 0 0 1 4,4 v58 a4,4 0 0 1 -4,4 h-208 a4,4 0 0 1 -4,-4 v-58 a4,4 0 0 1 4,-4 Z''"
  by code_simp



lemma clamp_below: "v < lo \<Longrightarrow> lo \<le> hi \<Longrightarrow> clamp v lo hi = lo"
  by (simp add: clamp_def)

lemma clamp_inside: "lo \<le> v \<Longrightarrow> v \<le> hi \<Longrightarrow> clamp v lo hi = v"
  by (simp add: clamp_def)

lemma clamp_above: "hi < v \<Longrightarrow> lo \<le> hi \<Longrightarrow> clamp v lo hi = hi"
  by (simp add: clamp_def)

lemma clampedRadius_clamp: "clampedRadius wd ht rad = clamp rad 0 (min wd ht / 2)"
  by (simp add: clampedRadius_def clamp_def min_def)

lemma path_calculatePath_Some:
  "path (calculatePath w (Some t) opts s) =
     (let pad = r_padding (mergeOptions (currentOptions s) opts);
          rad = r_radius (mergeOptions (currentOptions s) opts)
      in if cutoutWidth w t pad \<le> 0 \<or> cutoutHeight w t pad \<le> 0 then ''''
         else generateOverlayPath (innerWidth w) (innerHeight w) (cutoutX t pad) (cutoutY t pad)
                (cutoutWidth w t pad) (cutoutHeight w t pad) rad)"
  by (simp add: calculatePath_def Let_def)

lemma path_show_overlay: "path (show_overlay w t opts s) = path (calculatePath w (Some t) opts s)"
  by (simp add: show_overlay_def)

lemma generateOverlayPath_not_empty: "generateOverlayPath vw vh cx cy wd ht rad \<noteq> ''''"
  by (simp add: generateOverlayPath_def outerPath_def)

text \<open>
  Claim C2. Whenever a path is generated (the clamped cutout has positive width and
  height), the inner sub-path is drawn with the effective radius
  \<open>clamp(requested radius, 0, min(cutout width, cutout height) / 2)\<close>, which lies between
  \<open>0\<close> and half the smaller cutout dimension. For a target of width 20 and height 10,
  padding 0 and requested radius 100, every arc of the path is \<open>a5,5\<close>.
\<close>

theorem C2_effective_radius:
  "(0 < cutoutWidth w t (r_padding (mergeOptions (currentOptions s) opts)) \<and>
    0 < cutoutHeight w t (r_padding (mergeOptions (currentOptions s) opts)) \<longrightarrow>
    (let pad = r_padding (mergeOptions (currentOptions s) opts);
         rad = r_radius (mergeOptions (currentOptions s) opts);
         wd = cutoutWidth w t pad;
         ht = cutoutHeight w t pad;
         r = clamp rad 0 (min wd ht / 2)
     in path (show_overlay w t opts s) =
          outerPath (innerWidth w) (innerHeight w) @ '' '' @
          innerPath (cutoutX t pad) (cutoutY t pad) wd ht r \<and>
        0 \<le> r \<and> r \<le> min wd ht / 2)) \<and>
   path (show_overlay \<lparr>innerWidth = 1024, innerHeight = 768\<rparr>
           \<lparr>rect_x = 100, rect_y = 100, rect_width = 20, rect_height = 10\<rparr>
           (no_options\<lparr>padding := Some 0, radius := Some 100\<rparr>) useOverlay) =
     ''M1024,0 L0,0 L0,768 L1024,768 L1024,0 Z'' @ '' '' @
     ''M105,100 h10 a5,5 0 0 1 5,5 v0 a5,5 0 0 1 -5,5 h-10 a5,5 0 0 1 -5,-5 v-0 a5,5 0 0 1 5,-5 Z''"
proof (intro conjI impI)
  assume pos: "0 < cutoutWidth w t (r_padding (mergeOptions (currentOptions s) opts)) \<and>
    0 < cutoutHeight w t (r_padding (mergeOptions (currentOptions s) opts))"
  then show "let pad = r_padding (mergeOptions (currentOptions s) opts);
         rad = r_radius (mergeOptions (currentOptions s) opts);
         wd = cutoutWidth w t pad;
         ht = cutoutHeight w t pad;
         r = clamp rad 0 (min wd ht / 2)
     in path (show_overlay w t opts s) =
          outerPath (innerWidth w) (innerHeight w) @ '' '' @
          innerPath (cutoutX t pad) (cutoutY t pad) wd ht r \<and>
        0 \<le> r \<and> r \<le> min wd ht / 2"
    unfolding Let_def path_show_overlay path_calculatePath_Some generateOverlayPath_def
      clampedRadius_clamp
    by (auto simp: clamp_def)
next
  show "path (show_overlay \<lparr>innerWidth = 1024, innerHeight = 768\<rparr>
           \<lparr>rect_x = 100, rect_y = 100, rect_width = 20, rect_height = 10\<rparr>
           (no_options\<lparr>padding := Some 0, radius := Some 100\<rparr>) useOverlay) =
     ''M1024,0 L0,0 L0,768 L1024,768 L1024,0 Z'' @ '' '' @
     ''M105,100 h10 a5,5 0 0 1 5,5 v0 a5,5 0 0 1 -5,5 h-10 a5,5 0 0 1 -5,-5 v-0 a5,5 0 0 1 5,-5 Z''"
    by code_simp
qed

text \<open>
  An instance of C2 with a cutout of odd width: target 5 by 50 with padding 8 gives a
  cutout of 21 by 66, and the requested radius 40 becomes 10.5.
\<close>

theorem C2_effective_radius_witness:
  "0 < cutoutWidth \<lparr>innerWidth = 1024, innerHeight = 768\<rparr>
         \<lparr>rect_x = 100, rect_y = 100, rect_width = 5, rect_height = 50\<rparr> 8 \<and>
   0 < cutoutHeight \<lparr>innerWidth = 1024, innerHeight = 768\<rparr>
         \<lparr>rect_x = 100, rect_y = 100, rect_width = 5, rect_height = 50\<rparr> 8 \<and>
   path (show_overlay \<lparr>innerWidth = 1024, innerHeight = 768\<rparr>
           \<lparr>rect_x = 100, rect_y = 100, rect_width = 5, rect_height = 50\<rparr>
           (no_options\<lparr>radius := Some 40\<rparr>) useOverlay) =
     outerPath 1024 768 @ '' '' @ innerPath 92 92 21 66 (21 / 2) \<and>
   clamp 40 0 (min 21 66 / 2) = 21 / 2"
proof -
  let ?w = "\<lparr>innerWidth = 1024, innerHeight = 768\<rparr>"
  let ?t = "\<lparr>rect_x = 100, rect_y = 100, rect_width = 5, rect_height = 50\<rparr>"
  let ?o = "no_options\<lparr>radius := Some 40\<rparr>"
  have pad: "r_padding (mergeOptions (currentOptions useOverlay) ?o) = 8"
    and rad: "r_radius (mergeOptions (currentOptions useOverlay) ?o) = 40"
    by (simp_all add: mergeOptions_def useOverlay_def no_options_def)
  have cx: "cutoutX ?t 8 = 92" and cy: "cutoutY ?t 8 = 92"
    and wd: "cutoutWidth ?w ?t 8 = 21" and ht: "cutoutHeight ?w ?t 8 = 66"
    by (simp_all add: cutoutX_def cutoutY_def cutoutWidth_def cutoutHeight_def)
  have cl: "clamp 40 0 (21 / 2) = 21 / 2"
    by (simp add: clamp_def)
  from C2_effective_radius [of ?w ?t useOverlay ?o]
  show ?thesis
    by (simp add: pad rad cx cy wd ht cl Let_def)
qed

text \<open>
  Claim C3 as stated fails for a target that starts to the right of the viewport: the
  clamped origin is 1992, the clamped width is 0, and 1992 + 0 exceeds the viewport
  width 1024.
\<close>

theorem C3_far_edge_counterexample:
  "\<not> (cutoutX \<lparr>rect_x = 2000, rect_y = 100, rect_width = 200, rect_height = 50\<rparr> 8 +
       cutoutWidth \<lparr>innerWidth = 1024, innerHeight = 768\<rparr>
         \<lparr>rect_x = 2000, rect_y = 100, rect_width = 200, rect_height = 50\<rparr> 8
       \<le> innerWidth \<lparr>innerWidth = 1024, innerHeight = 768\<rparr>)"
  by (simp add: cutoutX_def cutoutWidth_def)

text \<open>
  Claim C3, amended. For every target rectangle, padding and viewport, the cutout has
  origin \<open>x \<ge> 0\<close>, \<open>y \<ge> 0\<close> and width and height that are never negative;
  \<open>x + width\<close> stays within the viewport width whenever the clamped origin \<open>x\<close> itself
  does, and likewise \<open>y + height\<close>; in particular both hold whenever a path is emitted.
  Whenever the clamped width or height is zero, the path is the empty string.
\<close>

theorem C3_cutout_bounds:
  "(let pad = r_padding (mergeOptions (currentOptions s) opts);
        cx = cutoutX t pad; cy = cutoutY t pad;
        wd = cutoutWidth w t pad; ht = cutoutHeight w t pad;
        p = path (show_overlay w t opts s)
    in 0 \<le> cx \<and> 0 \<le> cy \<and> 0 \<le> wd \<and> 0 \<le> ht \<and>
       (cx \<le> innerWidth w \<longrightarrow> cx + wd \<le> innerWidth w) \<and>
       (cy \<le> innerHeight w \<longrightarrow> cy + ht \<le> innerHeight w) \<and>
       (wd \<le> 0 \<or> ht \<le> 0 \<longrightarrow> p = '''') \<and>
       (p \<noteq> '''' \<longrightarrow> cx + wd \<le> innerWidth w \<and> cy + ht \<le> innerHeight w))"
  unfolding Let_def path_show_overlay path_calculatePath_Some
  by (auto simp: cutoutX_def cutoutY_def cutoutWidth_def cutoutHeight_def)

text \<open>
  Instances of C3: a target that reaches beyond the lower right corner of the viewport
  (a path is emitted and the far edges are clamped to 1024 and 768), and a target that
  lies off screen (empty path).
\<close>

theorem C3_cutout_bounds_witness:
  "cutoutX \<lparr>rect_x = 900, rect_y = 700, rect_width = 200, rect_height = 100\<rparr> 8
     \<le> innerWidth \<lparr>innerWidth = 1024, innerHeight = 768\<rparr> \<and>
   cutoutY \<lparr>rect_x = 900, rect_y = 700, rect_width = 200, rect_height = 100\<rparr> 8
     \<le> innerHeight \<lparr>innerWidth = 1024, innerHeight = 768\<rparr> \<and>
   path (show_overlay \<lparr>innerWidth = 1024, innerHeight = 768\<rparr>
     \<lparr>rect_x = 900, rect_y = 700, rect_width = 200, rect_height = 100\<rparr> no_options useOverlay)
     \<noteq> '''' \<and>
   cutoutX \<lparr>rect_x = 900, rect_y = 700, rect_width = 200, rect_height = 100\<rparr> 8 +
   cutoutWidth \<lparr>innerWidth = 1024, innerHeight = 768\<rparr>
     \<lparr>rect_x = 900, rect_y = 700, rect_width = 200, rect_height = 100\<rparr> 8
     \<le> innerWidth \<lparr>innerWidth = 1024, innerHeight = 768\<rparr> \<and>
   cutoutY \<lparr>rect_x = 900, rect_y = 700, rect_width = 200, rect_height = 100\<rparr> 8 +
   cutoutHeight \<lparr>innerWidth = 1024, innerHeight = 768\<rparr>
     \<lparr>rect_x = 900, rect_y = 700, rect_width = 200, rect_height = 100\<rparr> 8
     \<le> innerHeight \<lparr>innerWidth = 1024, innerHeight = 768\<rparr> \<and>
   cutoutWidth \<lparr>innerWidth = 1024, innerHeight = 768\<rparr>
     \<lparr>rect_x = 2000, rect_y = 100, rect_width = 200, rect_height = 50\<rparr> 8 \<le> 0 \<and>
   path (show_overlay \<lparr>innerWidth = 1024, innerHeight = 768\<rparr>
     \<lparr>rect_x = 2000, rect_y = 100, rect_width = 200, rect_height = 50\<rparr> no_options useOverlay)
     = ''''"
proof -
  let ?w = "\<lparr>innerWidth = 1024, innerHeight = 768\<rparr>"
  let ?t1 = "\<lparr>rect_x = 900, rect_y = 700, rect_width = 200, rect_height = 100\<rparr>"
  let ?t2 = "\<lparr>rect_x = 2000, rect_y = 100, rect_width = 200, rect_height = 50\<rparr>"
  have pad: "r_padding (mergeOptions (currentOptions useOverlay) no_options) = 8"
    by (simp add: mergeOptions_def useOverlay_def no_options_def)
  have h1: "cutoutX ?t1 8 \<le> innerWidth ?w" and h2: "cutoutY ?t1 8 \<le> innerHeight ?w"
    and h3: "cutoutWidth ?w ?t2 8 \<le> 0"
    by (simp_all add: cutoutX_def cutoutY_def cutoutWidth_def)
  have h4: "path (show_overlay ?w ?t1 no_options useOverlay) \<noteq> ''''"
    by (simp add: show_overlay_def path_calculatePath_Some generateOverlayPath_not_empty pad
        cutoutX_def cutoutY_def cutoutWidth_def cutoutHeight_def)
  from C3_cutout_bounds [of useOverlay no_options ?t1 ?w] h1 h2
  have a: "cutoutX ?t1 8 + cutoutWidth ?w ?t1 8 \<le> innerWidth ?w \<and>
           cutoutY ?t1 8 + cutoutHeight ?w ?t1 8 \<le> innerHeight ?w"
    unfolding Let_def pad by blast
  from C3_cutout_bounds [of useOverlay no_options ?t2 ?w] h3
  have b: "path (show_overlay ?w ?t2 no_options useOverlay) = ''''"
    unfolding Let_def pad by blast
  from h1 h2 h3 h4 a b show ?thesis
    by blast
qed

text \<open>
  Claim C8 as stated fails twice. After \<open>show\<close> and \<open>hide\<close> the path is still the one that
  \<open>show\<close> computed, so a \<open>refresh\<close> leaves a path that is not empty. And two different
  rectangles that both start left of the viewport have the same clamped cutout, so the
  \<open>refresh\<close> after \<open>show\<close> regenerates an equal path.
\<close>

theorem C8_refresh_counterexample:
  "path (refresh \<lparr>innerWidth = 1024, innerHeight = 768\<rparr>
           \<lparr>rect_x = 200, rect_y = 200, rect_width = 200, rect_height = 50\<rparr> no_options
           (hide (show_overlay \<lparr>innerWidth = 1024, innerHeight = 768\<rparr>
              \<lparr>rect_x = 100, rect_y = 100, rect_width = 200, rect_height = 50\<rparr> no_options
              useOverlay))) \<noteq> '''' \<and>
   \<lparr>rect_x = - 30, rect_y = 100, rect_width = 200, rect_height = 50\<rparr> \<noteq>
   \<lparr>rect_x = - 20, rect_y = 100, rect_width = 200, rect_height = 50\<rparr> \<and>
   path (refresh \<lparr>innerWidth = 1024, innerHeight = 768\<rparr>
           \<lparr>rect_x = - 30, rect_y = 100, rect_width = 200, rect_height = 50\<rparr> no_options
           (show_overlay \<lparr>innerWidth = 1024, innerHeight = 768\<rparr>
              \<lparr>rect_x = - 20, rect_y = 100, rect_width = 200, rect_height = 50\<rparr> no_options
              useOverlay)) =
   path (show_overlay \<lparr>innerWidth = 1024, innerHeight = 768\<rparr>
           \<lparr>rect_x = - 20, rect_y = 100, rect_width = 200, rect_height = 50\<rparr> no_options
           useOverlay)"
proof (intro conjI)
  show "path (refresh \<lparr>innerWidth = 1024, innerHeight = 768\<rparr>
           \<lparr>rect_x = 200, rect_y = 200, rect_width = 200, rect_height = 50\<rparr> no_options
           (hide (show_overlay \<lparr>innerWidth = 1024, innerHeight = 768\<rparr>
              \<lparr>rect_x = 100, rect_y = 100, rect_width = 200, rect_height = 50\<rparr> no_options
              useOverlay))) \<noteq> ''''"
    by code_simp
  show "\<lparr>rect_x = - 30, rect_y = 100, rect_width = 200, rect_height = 50\<rparr> \<noteq>
   \<lparr>rect_x = - 20, rect_y = 100, rect_width = 200, rect_height = 50\<rparr>"
    by simp
  show "path (refresh \<lparr>innerWidth = 1024, innerHeight = 768\<rparr>
           \<lparr>rect_x = - 30, rect_y = 100, rect_width = 200, rect_height = 50\<rparr> no_options
           (show_overlay \<lparr>innerWidth = 1024, innerHeight = 768\<rparr>
              \<lparr>rect_x = - 20, rect_y = 100, rect_width = 200, rect_height = 50\<rparr> no_options
              useOverlay)) =
   path (show_overlay \<lparr>innerWidth = 1024, innerHeight = 768\<rparr>
           \<lparr>rect_x = - 20, rect_y = 100, rect_width = 200, rect_height = 50\<rparr> no_options
           useOverlay)"
    by code_simp
qed

text \<open>
  Claim C8, amended. A \<open>refresh\<close> issued while the overlay is not visible changes nothing:
  after \<open>hide\<close> the path is the one from before the \<open>hide\<close>, and on a fresh overlay it
  stays empty. A \<open>refresh\<close> issued while the overlay is visible recomputes the path from
  the new rectangle, to the path that \<open>show\<close> would give; for the rectangles
  (100, 100, 200, 50) and then (200, 200, 200, 50) in a viewport of 1024 by 768 the new
  path differs from the old one.
\<close>

theorem C8_refresh:
  "(\<not> isVisible s \<longrightarrow> refresh w t opts s = s) \<and>
   refresh w t opts (hide s) = hide s \<and>
   path (refresh w t opts (hide s)) = path s \<and>
   path (refresh w t opts useOverlay) = '''' \<and>
   (isVisible s \<longrightarrow>
      refresh w t opts s = calculatePath w (Some t) opts s \<and>
      path (refresh w t opts s) = path (show_overlay w t opts s)) \<and>
   path (refresh \<lparr>innerWidth = 1024, innerHeight = 768\<rparr>
           \<lparr>rect_x = 200, rect_y = 200, rect_width = 200, rect_height = 50\<rparr> no_options
           (show_overlay \<lparr>innerWidth = 1024, innerHeight = 768\<rparr>
              \<lparr>rect_x = 100, rect_y = 100, rect_width = 200, rect_height = 50\<rparr> no_options
              useOverlay)) \<noteq>
   path (show_overlay \<lparr>innerWidth = 1024, innerHeight = 768\<rparr>
           \<lparr>rect_x = 100, rect_y = 100, rect_width = 200, rect_height = 50\<rparr> no_options
           useOverlay)"
proof (intro conjI impI)
  show "path (refresh \<lparr>innerWidth = 1024, innerHeight = 768\<rparr>
           \<lparr>rect_x = 200, rect_y = 200, rect_width = 200, rect_height = 50\<rparr> no_options
           (show_overlay \<lparr>innerWidth = 1024, innerHeight = 768\<rparr>
              \<lparr>rect_x = 100, rect_y = 100, rect_width = 200, rect_height = 50\<rparr> no_options
              useOverlay)) \<noteq>
   path (show_overlay \<lparr>innerWidth = 1024, innerHeight = 768\<rparr>
           \<lparr>rect_x = 100, rect_y = 100, rect_width = 200, rect_height = 50\<rparr> no_options
           useOverlay)"
    by code_simp
qed (simp_all add: refresh_def hide_def useOverlay_def show_overlay_def)

text \<open>Instances of C8: a fresh overlay (not visible) and an overlay after \<open>show\<close>.\<close>

theorem C8_refresh_witness:
  "\<not> isVisible useOverlay \<and>
   refresh \<lparr>innerWidth = 1024, innerHeight = 768\<rparr>
     \<lparr>rect_x = 200, rect_y = 200, rect_width = 200, rect_height = 50\<rparr> no_options useOverlay
     = useOverlay \<and>
   isVisible (show_overlay \<lparr>innerWidth = 1024, innerHeight = 768\<rparr>
     \<lparr>rect_x = 100, rect_y = 100, rect_width = 200, rect_height = 50\<rparr> no_options useOverlay) \<and>
   path (refresh \<lparr>innerWidth = 1024, innerHeight = 768\<rparr>
           \<lparr>rect_x = 200, rect_y = 200, rect_width = 200, rect_height = 50\<rparr> no_options
           (show_overlay \<lparr>innerWidth = 1024, innerHeight = 768\<rparr>
              \<lparr>rect_x = 100, rect_y = 100, rect_width = 200, rect_height = 50\<rparr> no_options
              useOverlay)) =
   path (show_overlay \<lparr>innerWidth = 1024, innerHeight = 768\<rparr>
           \<lparr>rect_x = 200, rect_y = 200, rect_width = 200, rect_height = 50\<rparr> no_options
           (show_overlay \<lparr>innerWidth = 1024, innerHeight = 768\<rparr>
              \<lparr>rect_x = 100, rect_y = 100, rect_width = 200, rect_height = 50\<rparr> no_options
              useOverlay))"
proof -
  let ?w = "\<lparr>innerWidth = 1024, innerHeight = 768\<rparr>"
  let ?t1 = "\<lparr>rect_x = 100, rect_y = 100, rect_width = 200, rect_height = 50\<rparr>"
  let ?t2 = "\<lparr>rect_x = 200, rect_y = 200, rect_width = 200, rect_height = 50\<rparr>"
  have h1: "\<not> isVisible useOverlay"
    by (simp add: useOverlay_def)
  have h2: "isVisible (show_overlay ?w ?t1 no_options useOverlay)"
    by (simp add: show_overlay_def)
  from C8_refresh [of useOverlay ?w ?t2 no_options] h1
  have a: "refresh ?w ?t2 no_options useOverlay = useOverlay"
    by blast
  from C8_refresh [of "show_overlay ?w ?t1 no_options useOverlay" ?w ?t2 no_options] h2
  have b: "path (refresh ?w ?t2 no_options (show_overlay ?w ?t1 no_options useOverlay)) =
           path (show_overlay ?w ?t2 no_options (show_overlay ?w ?t1 no_options useOverlay))"
    by blast
  from h1 a h2 b show ?thesis
    by blast
qed

section \<open>Properties of the tour sequencer\<close>

lemma call_fields [simp]:
  "status (call c s) = status s"
  "currentStepIndex (call c s) = currentStepIndex s"
  "targetElement (call c s) = targetElement s"
  "targetRect (call c s) = targetRect s"
  "calls (call c s) = calls s @ [(currentStepIndex s, c)]"
  "animationFrames (call c s) = animationFrames s"
  "timeouts (call c s) = timeouts s"
  by (simp_all add: call_def)

lemma callAll_Nil [simp]: "callAll [] s = s"
  by (simp add: callAll_def)

lemma callAll_Cons [simp]: "callAll (c # cs) s = callAll cs (call c s)"
  by (simp add: callAll_def)

lemma callAll_fields [simp]:
  "status (callAll cs s) = status s"
  "currentStepIndex (callAll cs s) = currentStepIndex s"
  "targetElement (callAll cs s) = targetElement s"
  "targetRect (callAll cs s) = targetRect s"
  "animationFrames (callAll cs s) = animationFrames s"
  "timeouts (callAll cs s) = timeouts s"
  by (induction cs arbitrary: s; simp)+

lemma calls_callAll [simp]:
  "calls (callAll cs s) = calls s @ map (Pair (currentStepIndex s)) cs"
  by (induction cs arbitrary: s) simp_all

text \<open>The element that resolving the target of a step yields, and the call that it makes.\<close>

lemma resolveTarget_fst:
  "fst (resolveTarget doc st s) =
     (case target st of Resolver el \<Rightarrow> el | Selector sel \<Rightarrow> querySelector doc sel)"
  by (simp add: resolveTarget_def split: Target.split)

lemma resolveTarget_snd:
  "snd (resolveTarget doc st s) =
     call (case target st of Resolver el \<Rightarrow> TargetFn st | Selector sel \<Rightarrow> QuerySelector sel) s"
  by (simp add: resolveTarget_def split: Target.split)

lemma updateTarget_None:
  "currentStep opts s = None \<Longrightarrow>
   updateTarget opts doc s = s\<lparr>targetElement := None, targetRect := None\<rparr>"
  by (simp add: updateTarget_def)

lemma updateTarget_Some:
  "currentStep opts s = Some st \<Longrightarrow>
   updateTarget opts doc s =
     (let el = (case target st of Resolver el \<Rightarrow> el | Selector sel \<Rightarrow> querySelector doc sel);
          s1 = call (case target st of Resolver el \<Rightarrow> TargetFn st
                     | Selector sel \<Rightarrow> QuerySelector sel) s
      in case el of
           None \<Rightarrow> s1\<lparr>targetElement := None, targetRect := None\<rparr>
         | Some e \<Rightarrow>
             (if scrollToTarget opts
              then (call (ScrollIntoView e)
                      (s1\<lparr>targetElement := Some e,
                          targetRect := Some (getBoundingClientRect doc e)\<rparr>))
                     \<lparr>animationFrames := animationFrames s @ [e]\<rparr>
              else s1\<lparr>targetElement := Some e,
                      targetRect := Some (getBoundingClientRect doc e)\<rparr>))"
  by (simp add: updateTarget_def Let_def split_beta resolveTarget_fst resolveTarget_snd
      split: option.split)

lemma updateTarget_fields [simp]:
  "status (updateTarget opts doc s) = status s"
  "currentStepIndex (updateTarget opts doc s) = currentStepIndex s"
  "timeouts (updateTarget opts doc s) = timeouts s"
  by (cases "currentStep opts s";
      simp add: updateTarget_None updateTarget_Some Let_def split: option.split)+

lemma targetRect_updateTarget:
  "targetRect (updateTarget opts doc s) =
     map_option (getBoundingClientRect doc) (targetElement (updateTarget opts doc s))"
  by (cases "currentStep opts s";
      simp add: updateTarget_None updateTarget_Some Let_def split: option.split)

lemma targetElement_updateTarget:
  "targetElement (updateTarget opts doc s) =
     (case currentStep opts s of
        None \<Rightarrow> None
      | Some st \<Rightarrow> (case target st of Resolver el \<Rightarrow> el | Selector sel \<Rightarrow> querySelector doc sel))"
  by (cases "currentStep opts s";
      simp add: updateTarget_None updateTarget_Some Let_def split: option.split)

lemma calls_updateTarget:
  "calls (updateTarget opts doc s) = calls s @
     (case currentStep opts s of
        None \<Rightarrow> []
      | Some st \<Rightarrow>
          (currentStepIndex s,
           case target st of Resolver el \<Rightarrow> TargetFn st | Selector sel \<Rightarrow> QuerySelector sel) #
          (case (case target st of Resolver el \<Rightarrow> el | Selector sel \<Rightarrow> querySelector doc sel) of
             None \<Rightarrow> []
           | Some e \<Rightarrow> if scrollToTarget opts then [(currentStepIndex s, ScrollIntoView e)] else []))"
  by (cases "currentStep opts s";
      simp add: updateTarget_None updateTarget_Some Let_def split: option.split)

lemma currentStep_stepAt: "currentStep opts s = stepAt opts (currentStepIndex s)"
  by (simp add: currentStep_def stepAt_def)

lemma commitStep_fields [simp]:
  "status (commitStep opts doc i d prev nx s) = status s"
  "currentStepIndex (commitStep opts doc i d prev nx s) = i"
  by (simp_all add: commitStep_def Let_def split: option.split)

lemma timeouts_commitStep:
  "timeouts (commitStep opts doc i d prev nx s) = timeouts s @
     (case autoAdvance nx of Some ms \<Rightarrow> if ms > 0 then [(ms, i)] else [] | None \<Rightarrow> [])"
  by (simp add: commitStep_def Let_def split: option.split)

lemma targetElement_commitStep:
  "stepAt opts i = Some nx \<Longrightarrow>
   targetElement (commitStep opts doc i d prev nx s) =
     (case target nx of Resolver el \<Rightarrow> el | Selector sel \<Rightarrow> querySelector doc sel)"
  by (simp add: commitStep_def Let_def targetElement_updateTarget currentStep_stepAt
      split: option.split)

lemma targetRect_commitStep:
  "targetRect (commitStep opts doc i d prev nx s) =
     map_option (getBoundingClientRect doc) (targetElement (commitStep opts doc i d prev nx s))"
  by (simp add: commitStep_def Let_def targetRect_updateTarget split: option.split)

lemma calls_commitStep:
  "stepAt opts i = Some nx \<Longrightarrow>
   calls (commitStep opts doc i d prev nx s) = calls s @
     [(i, case target nx of Resolver el \<Rightarrow> TargetFn nx | Selector sel \<Rightarrow> QuerySelector sel)] @
     (case (case target nx of Resolver el \<Rightarrow> el | Selector sel \<Rightarrow> querySelector doc sel) of
        None \<Rightarrow> []
      | Some e \<Rightarrow> if scrollToTarget opts then [(i, ScrollIntoView e)] else []) @
     (case prev of Some p \<Rightarrow> if onAfterHide p then [(i, AfterHide p)] else [] | None \<Rightarrow> []) @
     (if onAfterShow nx then [(i, AfterShow nx)] else []) @
     (if onStepChange opts then [(i, StepChange nx d)] else [])"
  by (simp add: commitStep_def Let_def calls_updateTarget currentStep_stepAt
      split: option.split)

lemma setStep_None: "stepAt opts i = None \<Longrightarrow> setStep opts doc i d after s = callAll after s"
  by (simp add: setStep_def)

lemma setStep_Some:
  "stepAt opts i = Some nx \<Longrightarrow>
   setStep opts doc i d after s =
     (case (case currentStep opts s of
              Some p \<Rightarrow> if onBeforeHide p then Some p else None
            | None \<Rightarrow> None) of
        Some p \<Rightarrow>
          commitStep opts doc i d (currentStep opts s) nx
            (if onBeforeShow nx
             then call (BeforeShow nx) (callAll after (call (BeforeHide p) s))
             else callAll after (call (BeforeHide p) s))
      | None \<Rightarrow>
          if onBeforeShow nx
          then commitStep opts doc i d (currentStep opts s) nx
                 (callAll after (call (BeforeShow nx) s))
          else callAll after (commitStep opts doc i d (currentStep opts s) nx s))"
  by (simp add: setStep_def Let_def split: option.split)

lemma setStep_status [simp]: "status (setStep opts doc i d after s) = status s"
  by (cases "stepAt opts i"; simp add: setStep_None setStep_Some split: option.split)

lemma setStep_index:
  "currentStepIndex (setStep opts doc i d after s) =
     (if stepAt opts i = None then currentStepIndex s else i)"
  by (cases "stepAt opts i"; simp add: setStep_None setStep_Some split: option.split)

lemma setStep_timeouts:
  "stepAt opts i = Some nx \<Longrightarrow>
   timeouts (setStep opts doc i d after s) = timeouts s @
     (case autoAdvance nx of Some ms \<Rightarrow> if ms > 0 then [(ms, i)] else [] | None \<Rightarrow> [])"
  by (simp add: setStep_Some timeouts_commitStep split: option.split)

lemma setStep_targetElement:
  "stepAt opts i = Some nx \<Longrightarrow>
   targetElement (setStep opts doc i d after s) =
     (case target nx of Resolver el \<Rightarrow> el | Selector sel \<Rightarrow> querySelector doc sel)"
  by (simp add: setStep_Some targetElement_commitStep split: option.split)

lemma setStep_targetRect:
  "stepAt opts i = Some nx \<Longrightarrow>
   targetRect (setStep opts doc i d after s) =
     map_option (getBoundingClientRect doc) (targetElement (setStep opts doc i d after s))"
  by (simp add: setStep_Some targetRect_commitStep split: option.split)

lemma filter_after_Start:
  "set after \<subseteq> {Start} \<Longrightarrow> filter (\<lambda>e. snd e \<noteq> Start) (map (Pair k) after) = []"
  by (induction after) auto

lemma setStep_calls:
  assumes "stepAt opts i = Some nx" and "set after \<subseteq> {Start}"
  shows "filter (\<lambda>e. snd e \<noteq> Start) (calls (setStep opts doc i d after s)) =
     filter (\<lambda>e. snd e \<noteq> Start) (calls s) @
     (case currentStep opts s of
        Some p \<Rightarrow> if onBeforeHide p then [(currentStepIndex s, BeforeHide p)] else []
      | None \<Rightarrow> []) @
     (if onBeforeShow nx then [(currentStepIndex s, BeforeShow nx)] else []) @
     [(i, case target nx of Resolver el \<Rightarrow> TargetFn nx | Selector sel \<Rightarrow> QuerySelector sel)] @
     (case (case target nx of Resolver el \<Rightarrow> el | Selector sel \<Rightarrow> querySelector doc sel) of
        None \<Rightarrow> []
      | Some e \<Rightarrow> if scrollToTarget opts then [(i, ScrollIntoView e)] else []) @
     (case currentStep opts s of
        Some p \<Rightarrow> if onAfterHide p then [(i, AfterHide p)] else []
      | None \<Rightarrow> []) @
     (if onAfterShow nx then [(i, AfterShow nx)] else []) @
     (if onStepChange opts then [(i, StepChange nx d)] else [])"
  using assms
  by (simp add: setStep_Some calls_commitStep filter_after_Start
      split: option.split Target.split)

lemma findIndex_range: "- 1 \<le> findIndex P xs \<and> findIndex P xs < int (length xs)"
  by (induction xs) (auto simp: Let_def)

lemma findIndex_absent: "(findIndex P xs = - 1) = (\<forall>a \<in> set xs. \<not> P a)"
proof (induction xs)
  case Nil
  show ?case by simp
next
  case (Cons a xs)
  have "- 1 \<le> findIndex P xs"
    using findIndex_range [of P xs] by simp
  with Cons show ?case
    by (auto simp: Let_def)
qed

lemma findIndex_found:
  "findIndex P xs \<noteq> - 1 \<Longrightarrow> P (xs ! nat (findIndex P xs))"
proof (induction xs)
  case Nil
  then show ?case by simp
next
  case (Cons a xs)
  have "- 1 \<le> findIndex P xs"
    using findIndex_range [of P xs] by simp
  with Cons show ?case
    by (auto simp: Let_def nat_add_distrib split: if_splits)
qed

lemma goTo_ByIndex:
  "status s = Active \<Longrightarrow> 0 \<le> j \<Longrightarrow> j < totalSteps opts \<Longrightarrow>
   goTo opts doc (ByIndex j) s =
     setStep opts doc j (if j > currentStepIndex s then Next else Previous) [] s"
  by (simp add: goTo_def totalSteps_def)

lemma goTo_ById_absent:
  "findIndex (\<lambda>st. step_id st = ident) (steps opts) = - 1 \<Longrightarrow>
   goTo opts doc (ById ident) s = s"
  by (simp add: goTo_def)

lemma goTo_ById_found:
  assumes "status s = Active" and "findIndex (\<lambda>st. step_id st = ident) (steps opts) = j"
    and "j \<noteq> - 1"
  shows "goTo opts doc (ById ident) s =
     setStep opts doc j (if j > currentStepIndex s then Next else Previous) [] s"
  using assms findIndex_range [of "\<lambda>st. step_id st = ident" "steps opts"]
  by (auto simp: goTo_def Let_def)

lemma setStep_calls_full:
  assumes "stepAt opts i = Some nx"
  shows "calls (setStep opts doc i d after s) = calls s @
     (if (case currentStep opts s of
            Some p \<Rightarrow> if onBeforeHide p then [(currentStepIndex s, BeforeHide p)] else []
          | None \<Rightarrow> []) \<noteq> []
      then (case currentStep opts s of
              Some p \<Rightarrow> if onBeforeHide p then [(currentStepIndex s, BeforeHide p)] else []
            | None \<Rightarrow> []) @
           map (Pair (currentStepIndex s)) after @
           (if onBeforeShow nx then [(currentStepIndex s, BeforeShow nx)] else []) @
           ([(i, case target nx of Resolver e \<Rightarrow> TargetFn nx | Selector sel \<Rightarrow> QuerySelector sel)] @
            (case (case target nx of Resolver e \<Rightarrow> e | Selector sel \<Rightarrow> querySelector doc sel) of
               None \<Rightarrow> []
             | Some e \<Rightarrow> if scrollToTarget opts then [(i, ScrollIntoView e)] else []) @
            (case currentStep opts s of
               Some p \<Rightarrow> if onAfterHide p then [(i, AfterHide p)] else []
             | None \<Rightarrow> []) @
            (if onAfterShow nx then [(i, AfterShow nx)] else []) @
            (if onStepChange opts then [(i, StepChange nx d)] else []))
      else if (if onBeforeShow nx then [(currentStepIndex s, BeforeShow nx)] else []) \<noteq> []
      then (if onBeforeShow nx then [(currentStepIndex s, BeforeShow nx)] else []) @
           map (Pair (currentStepIndex s)) after @
           ([(i, case target nx of Resolver e \<Rightarrow> TargetFn nx | Selector sel \<Rightarrow> QuerySelector sel)] @
            (case (case target nx of Resolver e \<Rightarrow> e | Selector sel \<Rightarrow> querySelector doc sel) of
               None \<Rightarrow> []
             | Some e \<Rightarrow> if scrollToTarget opts then [(i, ScrollIntoView e)] else []) @
            (case currentStep opts s of
               Some p \<Rightarrow> if onAfterHide p then [(i, AfterHide p)] else []
             | None \<Rightarrow> []) @
            (if onAfterShow nx then [(i, AfterShow nx)] else []) @
            (if onStepChange opts then [(i, StepChange nx d)] else []))
      else ([(i, case target nx of Resolver e \<Rightarrow> TargetFn nx | Selector sel \<Rightarrow> QuerySelector sel)] @
            (case (case target nx of Resolver e \<Rightarrow> e | Selector sel \<Rightarrow> querySelector doc sel) of
               None \<Rightarrow> []
             | Some e \<Rightarrow> if scrollToTarget opts then [(i, ScrollIntoView e)] else []) @
            (case currentStep opts s of
               Some p \<Rightarrow> if onAfterHide p then [(i, AfterHide p)] else []
             | None \<Rightarrow> []) @
            (if onAfterShow nx then [(i, AfterShow nx)] else []) @
            (if onStepChange opts then [(i, StepChange nx d)] else [])) @
           map (Pair i) after)"
  using assms
  by (simp add: setStep_Some calls_commitStep split: option.split Target.split)

text \<open>
  Claim C4. A step change to an existing step \<open>i\<close> makes its calls in this order:
  \<open>onBeforeHide\<close> of the step that is left and \<open>onBeforeShow\<close> of the destination, both
  while \<open>currentStepIndex\<close> still has its old value; then, with the index committed to
  \<open>i\<close>, the resolution of the destination's target (and the scroll), \<open>onAfterHide\<close> of the
  step that is left, \<open>onAfterShow\<close> of the destination and \<open>onStepChange\<close> with the
  destination and the direction. The first of the two \<open>before\<close> callbacks that is
  supplied is awaited: the calls of the caller (the \<open>onStart\<close> of \<open>start\<close>) come right
  after it, before the index is committed, and at the very end only when neither is
  supplied. Afterwards the index is \<open>i\<close>, the target element and rectangle are those of
  the destination, and for \<open>autoAdvance > 0\<close> a timer for index \<open>i\<close> is pending. \<open>start\<close>,
  \<open>next\<close>, \<open>previous\<close> and \<open>goTo\<close> change the step through \<open>setStep\<close>. A timer that
  fires calls \<open>next\<close> if the status is active and the index is still the one it was set
  for, and does nothing otherwise.
\<close>

theorem C4_step_change_protocol:
  "(stepAt opts i = Some nx \<and> set after \<subseteq> {Start} \<longrightarrow>
      (let s' = setStep opts doc i d after s;
           k = currentStepIndex s;
           el = (case target nx of Resolver e \<Rightarrow> e | Selector sel \<Rightarrow> querySelector doc sel)
       in filter (\<lambda>e. snd e \<noteq> Start) (calls s') =
            filter (\<lambda>e. snd e \<noteq> Start) (calls s) @
            (case currentStep opts s of
               Some p \<Rightarrow> if onBeforeHide p then [(k, BeforeHide p)] else []
             | None \<Rightarrow> []) @
            (if onBeforeShow nx then [(k, BeforeShow nx)] else []) @
            [(i, case target nx of Resolver e \<Rightarrow> TargetFn nx | Selector sel \<Rightarrow> QuerySelector sel)] @
            (case el of
               None \<Rightarrow> []
             | Some e \<Rightarrow> if scrollToTarget opts then [(i, ScrollIntoView e)] else []) @
            (case currentStep opts s of
               Some p \<Rightarrow> if onAfterHide p then [(i, AfterHide p)] else []
             | None \<Rightarrow> []) @
            (if onAfterShow nx then [(i, AfterShow nx)] else []) @
            (if onStepChange opts then [(i, StepChange nx d)] else []) \<and>
          currentStepIndex s' = i \<and>
          targetElement s' = el \<and>
          targetRect s' = map_option (getBoundingClientRect doc) el \<and>
          timeouts s' = timeouts s @
            (case autoAdvance nx of Some ms \<Rightarrow> if ms > 0 then [(ms, i)] else [] | None \<Rightarrow> []))) \<and>
   (steps opts \<noteq> [] \<longrightarrow>
      start opts doc i s =
        setStep opts doc i Next (if onStart opts then [Start] else []) (s\<lparr>status := Active\<rparr>)) \<and>
   (status s = Active \<and> \<not> isLastStep opts s \<longrightarrow>
      next_tour opts doc s = setStep opts doc (currentStepIndex s + 1) Next [] s) \<and>
   (status s = Active \<and> \<not> isFirstStep s \<longrightarrow>
      previous opts doc s = setStep opts doc (currentStepIndex s - 1) Previous [] s) \<and>
   (status s = Active \<and> 0 \<le> j \<and> j < totalSteps opts \<longrightarrow>
      goTo opts doc (ByIndex j) s =
        setStep opts doc j (if j > currentStepIndex s then Next else Previous) [] s) \<and>
   (status s = Active \<and> findIndex (\<lambda>st. step_id st = ident) (steps opts) = j \<and> j \<noteq> - 1 \<longrightarrow>
      goTo opts doc (ById ident) s =
        setStep opts doc j (if j > currentStepIndex s then Next else Previous) [] s) \<and>
   (n < length (timeouts s) \<longrightarrow>
      runTimeout opts doc n s =
        (let s1 = s\<lparr>timeouts := take n (timeouts s) @ drop (Suc n) (timeouts s)\<rparr>
         in if status s = Active \<and> currentStepIndex s = snd (timeouts s ! n)
            then next_tour opts doc s1 else s1)) \<and>
   (stepAt opts i = Some nx \<longrightarrow>
      (let k = currentStepIndex s;
           hide = (case currentStep opts s of
                     Some p \<Rightarrow> if onBeforeHide p then [(k, BeforeHide p)] else []
                   | None \<Rightarrow> []);
           shw = (if onBeforeShow nx then [(k, BeforeShow nx)] else []);
           rest =
             [(i, case target nx of Resolver e \<Rightarrow> TargetFn nx | Selector sel \<Rightarrow> QuerySelector sel)] @
             (case (case target nx of Resolver e \<Rightarrow> e | Selector sel \<Rightarrow> querySelector doc sel) of
                None \<Rightarrow> []
              | Some e \<Rightarrow> if scrollToTarget opts then [(i, ScrollIntoView e)] else []) @
             (case currentStep opts s of
                Some p \<Rightarrow> if onAfterHide p then [(i, AfterHide p)] else []
              | None \<Rightarrow> []) @
             (if onAfterShow nx then [(i, AfterShow nx)] else []) @
             (if onStepChange opts then [(i, StepChange nx d)] else [])
       in calls (setStep opts doc i d after s) = calls s @
            (if hide \<noteq> [] then hide @ map (Pair k) after @ shw @ rest
             else if shw \<noteq> [] then shw @ map (Pair k) after @ rest
             else rest @ map (Pair i) after)))"
proof (intro conjI impI)
  assume h: "stepAt opts i = Some nx \<and> set after \<subseteq> {Start}"
  then have nx: "stepAt opts i = Some nx" and af: "set after \<subseteq> {Start}"
    by simp_all
  show "let s' = setStep opts doc i d after s;
           k = currentStepIndex s;
           el = (case target nx of Resolver e \<Rightarrow> e | Selector sel \<Rightarrow> querySelector doc sel)
       in filter (\<lambda>e. snd e \<noteq> Start) (calls s') =
            filter (\<lambda>e. snd e \<noteq> Start) (calls s) @
            (case currentStep opts s of
               Some p \<Rightarrow> if onBeforeHide p then [(k, BeforeHide p)] else []
             | None \<Rightarrow> []) @
            (if onBeforeShow nx then [(k, BeforeShow nx)] else []) @
            [(i, case target nx of Resolver e \<Rightarrow> TargetFn nx | Selector sel \<Rightarrow> QuerySelector sel)] @
            (case el of
               None \<Rightarrow> []
             | Some e \<Rightarrow> if scrollToTarget opts then [(i, ScrollIntoView e)] else []) @
            (case currentStep opts s of
               Some p \<Rightarrow> if onAfterHide p then [(i, AfterHide p)] else []
             | None \<Rightarrow> []) @
            (if onAfterShow nx then [(i, AfterShow nx)] else []) @
            (if onStepChange opts then [(i, StepChange nx d)] else []) \<and>
          currentStepIndex s' = i \<and>
          targetElement s' = el \<and>
          targetRect s' = map_option (getBoundingClientRect doc) el \<and>
          timeouts s' = timeouts s @
            (case autoAdvance nx of Some ms \<Rightarrow> if ms > 0 then [(ms, i)] else [] | None \<Rightarrow> [])"
    unfolding Let_def
    using setStep_calls [OF nx af, of doc d s] setStep_index [of opts doc i d after s]
      setStep_targetElement [OF nx, of doc d after s] setStep_targetRect [OF nx, of doc d after s]
      setStep_timeouts [OF nx, of doc d after s] nx
    by simp
next
  assume "steps opts \<noteq> []"
  then show "start opts doc i s =
        setStep opts doc i Next (if onStart opts then [Start] else []) (s\<lparr>status := Active\<rparr>)"
    by (simp add: start_def)
next
  assume "status s = Active \<and> \<not> isLastStep opts s"
  then show "next_tour opts doc s = setStep opts doc (currentStepIndex s + 1) Next [] s"
    by (simp add: next_tour_def)
next
  assume "status s = Active \<and> \<not> isFirstStep s"
  then show "previous opts doc s = setStep opts doc (currentStepIndex s - 1) Previous [] s"
    by (simp add: previous_def)
next
  assume "status s = Active \<and> 0 \<le> j \<and> j < totalSteps opts"
  then show "goTo opts doc (ByIndex j) s =
        setStep opts doc j (if j > currentStepIndex s then Next else Previous) [] s"
    by (simp add: goTo_ByIndex)
next
  assume "status s = Active \<and> findIndex (\<lambda>st. step_id st = ident) (steps opts) = j \<and> j \<noteq> - 1"
  then show "goTo opts doc (ById ident) s =
        setStep opts doc j (if j > currentStepIndex s then Next else Previous) [] s"
    using goTo_ById_found [of s ident opts j doc] by simp
next
  assume "n < length (timeouts s)"
  then show "runTimeout opts doc n s =
        (let s1 = s\<lparr>timeouts := take n (timeouts s) @ drop (Suc n) (timeouts s)\<rparr>
         in if status s = Active \<and> currentStepIndex s = snd (timeouts s ! n)
            then next_tour opts doc s1 else s1)"
    by (simp add: runTimeout_def autoAdvanceTimer_def Let_def)
next
  assume nx: "stepAt opts i = Some nx"
  show "let k = currentStepIndex s;
           hide = (case currentStep opts s of
                     Some p \<Rightarrow> if onBeforeHide p then [(k, BeforeHide p)] else []
                   | None \<Rightarrow> []);
           shw = (if onBeforeShow nx then [(k, BeforeShow nx)] else []);
           rest =
             [(i, case target nx of Resolver e \<Rightarrow> TargetFn nx | Selector sel \<Rightarrow> QuerySelector sel)] @
             (case (case target nx of Resolver e \<Rightarrow> e | Selector sel \<Rightarrow> querySelector doc sel) of
                None \<Rightarrow> []
              | Some e \<Rightarrow> if scrollToTarget opts then [(i, ScrollIntoView e)] else []) @
             (case currentStep opts s of
                Some p \<Rightarrow> if onAfterHide p then [(i, AfterHide p)] else []
              | None \<Rightarrow> []) @
             (if onAfterShow nx then [(i, AfterShow nx)] else []) @
             (if onStepChange opts then [(i, StepChange nx d)] else [])
       in calls (setStep opts doc i d after s) = calls s @
            (if hide \<noteq> [] then hide @ map (Pair k) after @ shw @ rest
             else if shw \<noteq> [] then shw @ map (Pair k) after @ rest
             else rest @ map (Pair i) after)"
    unfolding Let_def using setStep_calls_full [OF nx, of doc d after s] .
qed

text \<open>
  Instances of C4: a tour of three steps on its second step, with the timer of the
  first step still pending, where the step change to the third step makes all seven
  calls; and \<open>start\<close> with an \<open>onStart\<close> callback, which is called before the index is
  committed when the first step has an \<open>onBeforeShow\<close>, and last when it has none.
\<close>

theorem C4_step_change_protocol_witness:
  "(let A = (test_step ''step1'')\<lparr>autoAdvance := Some 500\<rparr>;
        B = (test_step ''step2'')\<lparr>onBeforeHide := True, onAfterHide := True\<rparr>;
        C = (test_step ''step3'')\<lparr>onBeforeShow := True, onAfterShow := True\<rparr>;
        opts = (test_options [A, B, C])\<lparr>onStepChange := True\<rparr>;
        s = next_tour opts test_document (start opts test_document 0 useTour)
    in stepAt opts 2 = Some C \<and> steps opts \<noteq> [] \<and> status s = Active \<and>
       \<not> isLastStep opts s \<and> \<not> isFirstStep s \<and> 2 < totalSteps opts \<and>
       findIndex (\<lambda>st. step_id st = ''step3'') (steps opts) = 2 \<and>
       0 < length (timeouts s) \<and>
       filter (\<lambda>e. snd e \<noteq> Start) (calls (next_tour opts test_document s)) =
         filter (\<lambda>e. snd e \<noteq> Start) (calls s) @
         [(1, BeforeHide B), (1, BeforeShow C), (2, QuerySelector ''#test-target''),
          (2, ScrollIntoView 0), (2, AfterHide B), (2, AfterShow C), (2, StepChange C Next)] \<and>
       currentStepIndex (next_tour opts test_document s) = 2 \<and>
       timeouts s = [(500, 0)] \<and>
       runTimeout opts test_document 0 s = s\<lparr>timeouts := []\<rparr> \<and>
       goTo opts test_document (ById ''step3'') s = next_tour opts test_document s \<and>
       goTo opts test_document (ByIndex 2) s = next_tour opts test_document s \<and>
       previous opts test_document s = setStep opts test_document 0 Previous [] s \<and>
       start opts test_document 2 s =
         setStep opts test_document 2 Next [] (s\<lparr>status := Active\<rparr>) \<and>
       calls (next_tour opts test_document s) =
         calls s @
         [(1, BeforeHide B), (1, BeforeShow C), (2, QuerySelector ''#test-target''),
          (2, ScrollIntoView 0), (2, AfterHide B), (2, AfterShow C), (2, StepChange C Next)] \<and>
       calls (start ((test_options [C])\<lparr>onStart := True\<rparr>) test_document 0 useTour) =
         [(- 1, BeforeShow C), (- 1, Start), (0, QuerySelector ''#test-target''),
          (0, ScrollIntoView 0), (0, AfterShow C)] \<and>
       calls (start ((test_options [test_step ''step1''])\<lparr>onStart := True\<rparr>) test_document 0
                useTour) =
         [(0, QuerySelector ''#test-target''), (0, ScrollIntoView 0), (0, Start)])"
proof -
  define A where "A = (test_step ''step1'')\<lparr>autoAdvance := Some 500\<rparr>"
  define B where "B = (test_step ''step2'')\<lparr>onBeforeHide := True, onAfterHide := True\<rparr>"
  define C where "C = (test_step ''step3'')\<lparr>onBeforeShow := True, onAfterShow := True\<rparr>"
  define opts where "opts = (test_options [A, B, C])\<lparr>onStepChange := True\<rparr>"
  define s where "s = next_tour opts test_document (start opts test_document 0 useTour)"
  note defs = A_def B_def C_def opts_def s_def
  have st: "status s = Active" and ix: "currentStepIndex s = 1"
    and tm: "timeouts s = [(500, 0)]"
    unfolding defs by code_simp+
  have cur: "currentStep opts s = Some B"
    by (simp add: currentStep_def ix opts_def test_options_def)
  have h1: "stepAt opts 2 = Some C"
    by (simp add: stepAt_def opts_def test_options_def numeral_2_eq_2)
  have h2: "steps opts \<noteq> []" and h5: "2 < totalSteps opts"
    and os: "\<not> onStart opts" and oc: "onStepChange opts" and sc: "scrollToTarget opts"
    by (simp_all add: opts_def test_options_def totalSteps_def)
  have h3: "\<not> isLastStep opts s" and h4: "\<not> isFirstStep s"
    by (simp_all add: isLastStep_def isFirstStep_def ix opts_def test_options_def)
  have h6: "findIndex (\<lambda>st. step_id st = ''step3'') (steps opts) = 2"
    by (simp add: defs test_options_def test_step_def)
  have h7: "0 < length (timeouts s)"
    by (simp add: tm)
  have fB: "onBeforeHide B" "onAfterHide B"
    and fC: "onBeforeShow C" "onAfterShow C" "target C = Selector ''#test-target''"
      "autoAdvance C = None"
    and q: "querySelector test_document ''#test-target'' = Some 0"
    by (simp_all add: B_def C_def test_step_def test_document_def)
  note inst = C4_step_change_protocol [where opts = opts and i = 2 and nx = C and after = "[]"
      and doc = test_document and d = Next and s = s and j = 2 and ident = "''step3''" and n = 0]
  from inst h1 have p1:
    "filter (\<lambda>e. snd e \<noteq> Start) (calls (setStep opts test_document 2 Next [] s)) =
       filter (\<lambda>e. snd e \<noteq> Start) (calls s) @
       [(1, BeforeHide B), (1, BeforeShow C), (2, QuerySelector ''#test-target''),
        (2, ScrollIntoView 0), (2, AfterHide B), (2, AfterShow C), (2, StepChange C Next)]"
    and p2: "currentStepIndex (setStep opts test_document 2 Next [] s) = 2"
    by (simp_all add: Let_def cur ix fB fC q oc sc)
  from inst h2 os have p3:
    "start opts test_document 2 s = setStep opts test_document 2 Next [] (s\<lparr>status := Active\<rparr>)"
    by simp
  from inst st h3 have p4: "next_tour opts test_document s = setStep opts test_document 2 Next [] s"
    by (simp add: ix)
  from inst st h4 have p5: "previous opts test_document s = setStep opts test_document 0 Previous [] s"
    by (simp add: ix)
  from inst st h5 have p6: "goTo opts test_document (ByIndex 2) s = setStep opts test_document 2 Next [] s"
    by (simp add: ix)
  from inst st h6 have p7: "goTo opts test_document (ById ''step3'') s = setStep opts test_document 2 Next [] s"
    by (simp add: ix)
  from inst h7 have p8: "runTimeout opts test_document 0 s = s\<lparr>timeouts := []\<rparr>"
    by (simp add: Let_def tm ix)
  from inst h1 have p9:
    "calls (setStep opts test_document 2 Next [] s) =
       calls s @
       [(1, BeforeHide B), (1, BeforeShow C), (2, QuerySelector ''#test-target''),
        (2, ScrollIntoView 0), (2, AfterHide B), (2, AfterShow C), (2, StepChange C Next)]"
    by (simp add: Let_def cur ix fB fC q oc sc)
  define opts2 where "opts2 = (test_options [C])\<lparr>onStart := True\<rparr>"
  define opts3 where "opts3 = (test_options [test_step ''step1''])\<lparr>onStart := True\<rparr>"
  define s0 where "s0 = useTour\<lparr>status := Active\<rparr>"
  have u: "currentStepIndex s0 = - 1" "calls s0 = []"
    by (simp_all add: s0_def useTour_def)
  have g2: "stepAt opts2 0 = Some C" "steps opts2 \<noteq> []" "onStart opts2" "scrollToTarget opts2"
    "\<not> onStepChange opts2" "currentStep opts2 s0 = None"
    by (simp_all add: stepAt_def currentStep_def u opts2_def test_options_def)
  have g3: "stepAt opts3 0 = Some (test_step ''step1'')" "steps opts3 \<noteq> []" "onStart opts3"
    "scrollToTarget opts3" "\<not> onStepChange opts3" "currentStep opts3 s0 = None"
    by (simp_all add: stepAt_def currentStep_def u opts3_def test_options_def)
  have f1: "\<not> onBeforeShow (test_step ''step1'')" "\<not> onAfterShow (test_step ''step1'')"
    "target (test_step ''step1'') = Selector ''#test-target''"
    by (simp_all add: test_step_def)
  from C4_step_change_protocol [where opts = opts2 and i = 0 and nx = C and after = "[Start]"
      and doc = test_document and d = Next and s = s0] g2
  have q1: "calls (setStep opts2 test_document 0 Next [Start] s0) =
       [(- 1, BeforeShow C), (- 1, Start), (0, QuerySelector ''#test-target''),
        (0, ScrollIntoView 0), (0, AfterShow C)]"
    by (simp add: Let_def u fC q)
  from C4_step_change_protocol [where opts = opts2 and i = 0 and doc = test_document
      and s = useTour] g2
  have q2: "start opts2 test_document 0 useTour = setStep opts2 test_document 0 Next [Start] s0"
    by (simp add: s0_def)
  from C4_step_change_protocol [where opts = opts3 and i = 0 and nx = "test_step ''step1''"
      and after = "[Start]" and doc = test_document and d = Next and s = s0] g3
  have q3: "calls (setStep opts3 test_document 0 Next [Start] s0) =
       [(0, QuerySelector ''#test-target''), (0, ScrollIntoView 0), (0, Start)]"
    by (simp add: Let_def u f1 q)
  from C4_step_change_protocol [where opts = opts3 and i = 0 and doc = test_document
      and s = useTour] g3
  have q4: "start opts3 test_document 0 useTour = setStep opts3 test_document 0 Next [Start] s0"
    by (simp add: s0_def)
  from h1 h2 st h3 h4 h5 h6 h7 p1 p2 tm p3 p4 p5 p6 p7 p8 p9 q1 q2 q3 q4
  show ?thesis
    unfolding Let_def defs [symmetric] opts2_def [symmetric] opts3_def [symmetric] by simp
qed

lemma stepAt_Some_iff: "(stepAt opts i \<noteq> None) = (0 \<le> i \<and> i < totalSteps opts)"
  by (simp add: stepAt_def totalSteps_def)

lemma complete_tour_eq:
  "complete_tour opts s =
     s\<lparr>status := Completed, currentStepIndex := - 1, targetElement := None, targetRect := None,
       calls := calls s @ (if onComplete opts then [(- 1, Complete)] else [])\<rparr>"
  by (simp add: complete_tour_def call_def Let_def)

lemma skip_eq:
  "skip opts s =
     s\<lparr>status := Idle, currentStepIndex := - 1, targetElement := None, targetRect := None,
       calls := calls s @ (if onSkip opts then [(- 1, Skip)] else [])\<rparr>"
  by (simp add: skip_def call_def Let_def)

text \<open>
  Claim C5. While the status is active, \<open>next\<close> on the last step sets the status to
  completed, the index to \<open>-1\<close>, clears the target element and rectangle and calls
  \<open>onComplete\<close>, changing nothing else; \<open>next\<close> on any other index of a tour (from \<open>-1\<close>
  up to the last but one) increments the index by 1 and stays active.
\<close>

theorem C5_next:
  "status s = Active \<longrightarrow>
     (isLastStep opts s \<longrightarrow>
        next_tour opts doc s =
          s\<lparr>status := Completed, currentStepIndex := - 1, targetElement := None,
            targetRect := None,
            calls := calls s @ (if onComplete opts then [(- 1, Complete)] else [])\<rparr>) \<and>
     (\<not> isLastStep opts s \<and> - 1 \<le> currentStepIndex s \<and> currentStepIndex s < totalSteps opts \<longrightarrow>
        currentStepIndex (next_tour opts doc s) = currentStepIndex s + 1 \<and>
        status (next_tour opts doc s) = Active)"
proof (intro impI conjI)
  assume "status s = Active" and "isLastStep opts s"
  then show "next_tour opts doc s =
          s\<lparr>status := Completed, currentStepIndex := - 1, targetElement := None,
            targetRect := None,
            calls := calls s @ (if onComplete opts then [(- 1, Complete)] else [])\<rparr>"
    by (simp add: next_tour_def complete_tour_eq)
next
  assume a: "status s = Active"
    and b: "\<not> isLastStep opts s \<and> - 1 \<le> currentStepIndex s \<and> currentStepIndex s < totalSteps opts"
  from b have "stepAt opts (currentStepIndex s + 1) \<noteq> None"
    by (simp add: stepAt_def isLastStep_def totalSteps_def)
  with a b show "currentStepIndex (next_tour opts doc s) = currentStepIndex s + 1"
    by (simp add: next_tour_def setStep_index)
  from a b show "status (next_tour opts doc s) = Active"
    by (simp add: next_tour_def)
qed

text \<open>An instance of C5: a tour of two steps, advanced twice.\<close>

theorem C5_next_witness:
  "status (start ((test_options [test_step ''step1'', test_step ''step2''])\<lparr>onComplete := True\<rparr>)
             test_document 0 useTour) = Active \<and>
   \<not> isLastStep ((test_options [test_step ''step1'', test_step ''step2''])\<lparr>onComplete := True\<rparr>)
        (start ((test_options [test_step ''step1'', test_step ''step2''])\<lparr>onComplete := True\<rparr>)
           test_document 0 useTour) \<and>
   currentStepIndex
     (next_tour ((test_options [test_step ''step1'', test_step ''step2''])\<lparr>onComplete := True\<rparr>)
        test_document
        (start ((test_options [test_step ''step1'', test_step ''step2''])\<lparr>onComplete := True\<rparr>)
           test_document 0 useTour)) = 1 \<and>
   isLastStep ((test_options [test_step ''step1'', test_step ''step2''])\<lparr>onComplete := True\<rparr>)
     (next_tour ((test_options [test_step ''step1'', test_step ''step2''])\<lparr>onComplete := True\<rparr>)
        test_document
        (start ((test_options [test_step ''step1'', test_step ''step2''])\<lparr>onComplete := True\<rparr>)
           test_document 0 useTour)) \<and>
   status
     (next_tour ((test_options [test_step ''step1'', test_step ''step2''])\<lparr>onComplete := True\<rparr>)
        test_document
        (next_tour ((test_options [test_step ''step1'', test_step ''step2''])\<lparr>onComplete := True\<rparr>)
           test_document
           (start ((test_options [test_step ''step1'', test_step ''step2''])\<lparr>onComplete := True\<rparr>)
              test_document 0 useTour))) = Completed \<and>
   currentStepIndex
     (next_tour ((test_options [test_step ''step1'', test_step ''step2''])\<lparr>onComplete := True\<rparr>)
        test_document
        (next_tour ((test_options [test_step ''step1'', test_step ''step2''])\<lparr>onComplete := True\<rparr>)
           test_document
           (start ((test_options [test_step ''step1'', test_step ''step2''])\<lparr>onComplete := True\<rparr>)
              test_document 0 useTour))) = - 1"
proof -
  let ?O = "(test_options [test_step ''step1'', test_step ''step2''])\<lparr>onComplete := True\<rparr>"
  let ?s1 = "start ?O test_document 0 useTour"
  let ?s2 = "next_tour ?O test_document ?s1"
  have a1: "status ?s1 = Active" and a2: "\<not> isLastStep ?O ?s1"
    and a3: "- 1 \<le> currentStepIndex ?s1" and a4: "currentStepIndex ?s1 < totalSteps ?O"
    and a5: "currentStepIndex ?s1 = 0"
    by code_simp+
  from C5_next [of ?s1 ?O test_document] a1 a2 a3 a4
  have b: "currentStepIndex ?s2 = currentStepIndex ?s1 + 1 \<and> status ?s2 = Active"
    by blast
  then have b1: "currentStepIndex ?s2 = 1" and b2: "status ?s2 = Active"
    by (simp_all add: a5)
  from b1 have b3: "isLastStep ?O ?s2"
    by (simp add: isLastStep_def test_options_def)
  from C5_next [of ?s2 ?O test_document] b2 b3
  have "next_tour ?O test_document ?s2 =
          ?s2\<lparr>status := Completed, currentStepIndex := - 1, targetElement := None,
            targetRect := None,
            calls := calls ?s2 @ (if onComplete ?O then [(- 1, Complete)] else [])\<rparr>"
    by blast
  then have c: "status (next_tour ?O test_document ?s2) = Completed \<and>
                currentStepIndex (next_tour ?O test_document ?s2) = - 1"
    by simp
  from a1 a2 b1 b3 c show ?thesis
    by blast
qed

text \<open>
  Claim C6. While the status is active, \<open>goTo\<close> with an id that no step has leaves the
  state unchanged; with the id of a step it sets the index to the position that
  \<open>findIndex\<close> gives for the id, and the direction passed to \<open>onStepChange\<close> (the last call
  made) is \<open>next\<close> if that position is greater than the prior index and \<open>previous\<close>
  otherwise.
\<close>

theorem C6_goTo_id:
  "status s = Active \<longrightarrow>
     (ident \<notin> step_id ` set (steps opts) \<longrightarrow> goTo opts doc (ById ident) s = s) \<and>
     (ident \<in> step_id ` set (steps opts) \<longrightarrow>
        (let j = findIndex (\<lambda>st. step_id st = ident) (steps opts);
             s' = goTo opts doc (ById ident) s
         in 0 \<le> j \<and> j < totalSteps opts \<and> step_id (steps opts ! nat j) = ident \<and>
            currentStepIndex s' = j \<and>
            (onStepChange opts \<longrightarrow>
               calls s' \<noteq> [] \<and>
               last (calls s') =
                 (j, StepChange (steps opts ! nat j)
                       (if j > currentStepIndex s then Next else Previous)))))"
proof (intro impI conjI)
  assume "ident \<notin> step_id ` set (steps opts)"
  then have "findIndex (\<lambda>st. step_id st = ident) (steps opts) = - 1"
    by (auto simp: findIndex_absent)
  then show "goTo opts doc (ById ident) s = s"
    by (rule goTo_ById_absent)
next
  let ?P = "\<lambda>st. step_id st = ident"
  let ?j = "findIndex ?P (steps opts)"
  let ?d = "if ?j > currentStepIndex s then Next else Previous"
  assume act: "status s = Active" and mem: "ident \<in> step_id ` set (steps opts)"
  from mem have ne: "?j \<noteq> - 1"
    by (auto simp: findIndex_absent)
  with findIndex_range [of ?P "steps opts"]
  have rng: "0 \<le> ?j" "?j < totalSteps opts"
    by (simp_all add: totalSteps_def)
  from findIndex_found [OF ne] have idj: "step_id (steps opts ! nat ?j) = ident" .
  from rng have nx: "stepAt opts ?j = Some (steps opts ! nat ?j)"
    by (simp add: stepAt_def totalSteps_def)
  have go: "goTo opts doc (ById ident) s = setStep opts doc ?j ?d [] s"
    using goTo_ById_found [OF act refl ne] .
  have idx: "currentStepIndex (goTo opts doc (ById ident) s) = ?j"
    by (simp add: go setStep_index nx)
  have cl: "onStepChange opts \<Longrightarrow>
      calls (goTo opts doc (ById ident) s) \<noteq> [] \<and>
      last (calls (goTo opts doc (ById ident) s)) = (?j, StepChange (steps opts ! nat ?j) ?d)"
    unfolding go
    by (simp add: setStep_Some [OF nx] calls_commitStep [OF nx] split: option.split)
  from rng idj idx cl
  show "let j = findIndex (\<lambda>st. step_id st = ident) (steps opts);
             s' = goTo opts doc (ById ident) s
         in 0 \<le> j \<and> j < totalSteps opts \<and> step_id (steps opts ! nat j) = ident \<and>
            currentStepIndex s' = j \<and>
            (onStepChange opts \<longrightarrow>
               calls s' \<noteq> [] \<and>
               last (calls s') =
                 (j, StepChange (steps opts ! nat j)
                       (if j > currentStepIndex s then Next else Previous)))"
    unfolding Let_def by blast
qed

text \<open>An instance of C6: a tour of three steps on its first step.\<close>

theorem C6_goTo_id_witness:
  "status (start ((test_options [test_step ''step1'', test_step ''step2'', test_step ''step3''])
                   \<lparr>onStepChange := True\<rparr>) test_document 0 useTour) = Active \<and>
   ''nonexistent'' \<notin> step_id `
      set (steps ((test_options [test_step ''step1'', test_step ''step2'', test_step ''step3''])
                   \<lparr>onStepChange := True\<rparr>)) \<and>
   goTo ((test_options [test_step ''step1'', test_step ''step2'', test_step ''step3''])
           \<lparr>onStepChange := True\<rparr>) test_document (ById ''nonexistent'')
     (start ((test_options [test_step ''step1'', test_step ''step2'', test_step ''step3''])
               \<lparr>onStepChange := True\<rparr>) test_document 0 useTour) =
   start ((test_options [test_step ''step1'', test_step ''step2'', test_step ''step3''])
            \<lparr>onStepChange := True\<rparr>) test_document 0 useTour \<and>
   ''step3'' \<in> step_id `
      set (steps ((test_options [test_step ''step1'', test_step ''step2'', test_step ''step3''])
                   \<lparr>onStepChange := True\<rparr>)) \<and>
   onStepChange ((test_options [test_step ''step1'', test_step ''step2'', test_step ''step3''])
                   \<lparr>onStepChange := True\<rparr>) \<and>
   currentStepIndex
     (goTo ((test_options [test_step ''step1'', test_step ''step2'', test_step ''step3''])
              \<lparr>onStepChange := True\<rparr>) test_document (ById ''step3'')
        (start ((test_options [test_step ''step1'', test_step ''step2'', test_step ''step3''])
                  \<lparr>onStepChange := True\<rparr>) test_document 0 useTour)) = 2 \<and>
   last (calls
     (goTo ((test_options [test_step ''step1'', test_step ''step2'', test_step ''step3''])
              \<lparr>onStepChange := True\<rparr>) test_document (ById ''step3'')
        (start ((test_options [test_step ''step1'', test_step ''step2'', test_step ''step3''])
                  \<lparr>onStepChange := True\<rparr>) test_document 0 useTour))) =
     (2, StepChange (test_step ''step3'') Next)"
proof -
  let ?O = "(test_options [test_step ''step1'', test_step ''step2'', test_step ''step3''])
              \<lparr>onStepChange := True\<rparr>"
  let ?s = "start ?O test_document 0 useTour"
  have a1: "status ?s = Active" and a0: "currentStepIndex ?s = 0"
    by code_simp+
  have a2: "''nonexistent'' \<notin> step_id ` set (steps ?O)"
    and a3: "''step3'' \<in> step_id ` set (steps ?O)"
    and a4: "onStepChange ?O"
    by (simp_all add: test_options_def test_step_def)
  have j: "findIndex (\<lambda>st. step_id st = ''step3'') (steps ?O) = 2"
    by (simp add: test_options_def test_step_def)
  have st: "steps ?O ! nat 2 = test_step ''step3''"
    by (simp add: test_options_def numeral_2_eq_2)
  from C6_goTo_id [of ?s "''nonexistent''" ?O test_document] a1 a2
  have b: "goTo ?O test_document (ById ''nonexistent'') ?s = ?s"
    by blast
  from C6_goTo_id [of ?s "''step3''" ?O test_document] a1 a3 a4
  have c: "currentStepIndex (goTo ?O test_document (ById ''step3'') ?s) = 2 \<and>
           last (calls (goTo ?O test_document (ById ''step3'') ?s)) =
             (2, StepChange (test_step ''step3'') Next)"
    unfolding Let_def j st a0 by simp
  from a1 a2 a3 a4 b c show ?thesis
    by blast
qed

text \<open>
  Claim C7. With an empty step list \<open>start\<close> changes nothing, so that a fresh tour stays
  idle; with a step list that is not empty, \<open>start\<close> at index 0 makes the tour active on
  index 0, which is the first step, and the last step exactly when there is one step.
\<close>

theorem C7_start:
  "(steps opts = [] \<longrightarrow>
      start opts doc i s = s \<and> status (start opts doc i useTour) = Idle) \<and>
   (steps opts \<noteq> [] \<longrightarrow>
      status (start opts doc 0 s) = Active \<and>
      currentStepIndex (start opts doc 0 s) = 0 \<and>
      isFirstStep (start opts doc 0 s) \<and>
      isLastStep opts (start opts doc 0 s) = (totalSteps opts = 1))"
proof (intro conjI impI)
  assume "steps opts = []"
  then show "start opts doc i s = s" and "status (start opts doc i useTour) = Idle"
    by (simp_all add: start_def useTour_def)
next
  assume ne: "steps opts \<noteq> []"
  then have nx: "stepAt opts 0 = Some (steps opts ! 0)"
    by (simp add: stepAt_def)
  from ne show "status (start opts doc 0 s) = Active"
    by (simp add: start_def)
  from ne show idx: "currentStepIndex (start opts doc 0 s) = 0"
    by (simp add: start_def setStep_index nx)
  then show "isFirstStep (start opts doc 0 s)"
    by (simp add: isFirstStep_def)
  from idx show "isLastStep opts (start opts doc 0 s) = (totalSteps opts = 1)"
    by (auto simp: isLastStep_def totalSteps_def)
qed

text \<open>Instances of C7: no step, and two steps.\<close>

theorem C7_start_witness:
  "steps (test_options []) = [] \<and>
   start (test_options []) test_document 0 useTour = useTour \<and>
   status (start (test_options []) test_document 0 useTour) = Idle \<and>
   steps (test_options [test_step ''step1'', test_step ''step2'']) \<noteq> [] \<and>
   status (start (test_options [test_step ''step1'', test_step ''step2'']) test_document 0
             useTour) = Active \<and>
   currentStepIndex (start (test_options [test_step ''step1'', test_step ''step2''])
                       test_document 0 useTour) = 0 \<and>
   isFirstStep (start (test_options [test_step ''step1'', test_step ''step2''])
                  test_document 0 useTour) \<and>
   \<not> isLastStep (test_options [test_step ''step1'', test_step ''step2''])
        (start (test_options [test_step ''step1'', test_step ''step2'']) test_document 0 useTour)"
proof -
  let ?O = "test_options [test_step ''step1'', test_step ''step2'']"
  have h0: "steps (test_options []) = []"
    by (simp add: test_options_def)
  have h1: "steps ?O \<noteq> []"
    by (simp add: test_options_def)
  have t: "totalSteps ?O \<noteq> 1"
    by (simp add: totalSteps_def test_options_def)
  from C7_start [of "test_options []" test_document 0 useTour] h0
  have a: "start (test_options []) test_document 0 useTour = useTour \<and>
           status (start (test_options []) test_document 0 useTour) = Idle"
    by blast
  from C7_start [of ?O test_document 0 useTour] h1 t
  have b: "status (start ?O test_document 0 useTour) = Active \<and>
           currentStepIndex (start ?O test_document 0 useTour) = 0 \<and>
           isFirstStep (start ?O test_document 0 useTour) \<and>
           \<not> isLastStep ?O (start ?O test_document 0 useTour)"
    by blast
  from h0 h1 a b show ?thesis
    by blast
qed

text \<open>
  Claim C10. On a tour with steps whose index is \<open>-1\<close>, \<open>start\<close> with an index that is
  negative or not below the number of steps makes the status active and calls
  \<open>onStart\<close>, while the index stays \<open>-1\<close>, there is no current step and the target is
  untouched.
\<close>

theorem C10_start_out_of_range:
  "steps opts \<noteq> [] \<and> (i < 0 \<or> totalSteps opts \<le> i) \<and> currentStepIndex s = - 1 \<longrightarrow>
     status (start opts doc i s) = Active \<and>
     calls (start opts doc i s) = calls s @ (if onStart opts then [(- 1, Start)] else []) \<and>
     currentStepIndex (start opts doc i s) = - 1 \<and>
     currentStep opts (start opts doc i s) = None \<and>
     targetElement (start opts doc i s) = targetElement s \<and>
     targetRect (start opts doc i s) = targetRect s"
proof (intro impI)
  assume h: "steps opts \<noteq> [] \<and> (i < 0 \<or> totalSteps opts \<le> i) \<and> currentStepIndex s = - 1"
  then have nx: "stepAt opts i = None"
    by (auto simp: stepAt_def totalSteps_def)
  from h have st: "start opts doc i s =
      callAll (if onStart opts then [Start] else []) (s\<lparr>status := Active\<rparr>)"
    by (simp add: start_def setStep_None [OF nx])
  from h show "status (start opts doc i s) = Active \<and>
     calls (start opts doc i s) = calls s @ (if onStart opts then [(- 1, Start)] else []) \<and>
     currentStepIndex (start opts doc i s) = - 1 \<and>
     currentStep opts (start opts doc i s) = None \<and>
     targetElement (start opts doc i s) = targetElement s \<and>
     targetRect (start opts doc i s) = targetRect s"
    unfolding st by (simp add: currentStep_def)
qed

text \<open>An instance of C10: \<open>start(5)\<close> on a fresh tour of one step.\<close>

theorem C10_start_out_of_range_witness:
  "steps ((test_options [test_step ''step1''])\<lparr>onStart := True\<rparr>) \<noteq> [] \<and>
   totalSteps ((test_options [test_step ''step1''])\<lparr>onStart := True\<rparr>) \<le> 5 \<and>
   currentStepIndex useTour = - 1 \<and>
   status (start ((test_options [test_step ''step1''])\<lparr>onStart := True\<rparr>) test_document 5
             useTour) = Active \<and>
   calls (start ((test_options [test_step ''step1''])\<lparr>onStart := True\<rparr>) test_document 5
            useTour) = [(- 1, Start)] \<and>
   currentStepIndex (start ((test_options [test_step ''step1''])\<lparr>onStart := True\<rparr>)
                       test_document 5 useTour) = - 1 \<and>
   currentStep ((test_options [test_step ''step1''])\<lparr>onStart := True\<rparr>)
     (start ((test_options [test_step ''step1''])\<lparr>onStart := True\<rparr>) test_document 5
        useTour) = None"
proof -
  let ?O = "(test_options [test_step ''step1''])\<lparr>onStart := True\<rparr>"
  have h1: "steps ?O \<noteq> []" and h2: "totalSteps ?O \<le> 5" and h3: "currentStepIndex useTour = - 1"
    and o: "onStart ?O" and c: "calls useTour = []"
    by (simp_all add: test_options_def totalSteps_def useTour_def)
  from C10_start_out_of_range [of ?O 5 useTour test_document] h1 h2 h3
  have "status (start ?O test_document 5 useTour) = Active \<and>
     calls (start ?O test_document 5 useTour) =
       calls useTour @ (if onStart ?O then [(- 1, Start)] else []) \<and>
     currentStepIndex (start ?O test_document 5 useTour) = - 1 \<and>
     currentStep ?O (start ?O test_document 5 useTour) = None"
    by blast
  with h1 h2 h3 o c show ?thesis
    by simp
qed

lemma currentStep_iff:
  "(currentStep opts s \<noteq> None) = (0 \<le> currentStepIndex s \<and> currentStepIndex s < totalSteps opts)"
  by (simp add: currentStep_def totalSteps_def)

lemma runAnimationFrame_fields [simp]:
  "status (runAnimationFrame doc s) = status s"
  "currentStepIndex (runAnimationFrame doc s) = currentStepIndex s"
  "targetElement (runAnimationFrame doc s) = targetElement s"
  "calls (runAnimationFrame doc s) = calls s"
  "timeouts (runAnimationFrame doc s) = timeouts s"
proof -
  have frames: "status (foldl (\<lambda>s' e. s'\<lparr>targetRect := Some (getBoundingClientRect doc e)\<rparr>) t es) = status t \<and>
        currentStepIndex (foldl (\<lambda>s' e. s'\<lparr>targetRect := Some (getBoundingClientRect doc e)\<rparr>) t es) = currentStepIndex t \<and>
        targetElement (foldl (\<lambda>s' e. s'\<lparr>targetRect := Some (getBoundingClientRect doc e)\<rparr>) t es) = targetElement t \<and>
        calls (foldl (\<lambda>s' e. s'\<lparr>targetRect := Some (getBoundingClientRect doc e)\<rparr>) t es) = calls t \<and>
        timeouts (foldl (\<lambda>s' e. s'\<lparr>targetRect := Some (getBoundingClientRect doc e)\<rparr>) t es) = timeouts t"
    for t es
    by (induction es arbitrary: t) simp_all
  show "status (runAnimationFrame doc s) = status s"
    "currentStepIndex (runAnimationFrame doc s) = currentStepIndex s"
    "targetElement (runAnimationFrame doc s) = targetElement s"
    "calls (runAnimationFrame doc s) = calls s"
    "timeouts (runAnimationFrame doc s) = timeouts s"
    by (simp_all add: runAnimationFrame_def frames)
qed

text \<open>The index of a tour is \<open>-1\<close> or the position of a step.\<close>

lemma setStep_index_range:
  "- 1 \<le> currentStepIndex s \<and> currentStepIndex s < totalSteps opts \<Longrightarrow>
   - 1 \<le> currentStepIndex (setStep opts doc i d after s) \<and>
   currentStepIndex (setStep opts doc i d after s) < totalSteps opts"
  using stepAt_Some_iff [of opts i] by (simp add: setStep_index)

lemma next_tour_index_range:
  "- 1 \<le> currentStepIndex s \<and> currentStepIndex s < totalSteps opts \<Longrightarrow>
   - 1 \<le> currentStepIndex (next_tour opts doc s) \<and>
   currentStepIndex (next_tour opts doc s) < totalSteps opts"
  using setStep_index_range [of s opts doc "currentStepIndex s + 1" Next "[]"]
  by (simp add: next_tour_def complete_tour_eq totalSteps_def)

lemma previous_index_range:
  "- 1 \<le> currentStepIndex s \<and> currentStepIndex s < totalSteps opts \<Longrightarrow>
   - 1 \<le> currentStepIndex (previous opts doc s) \<and>
   currentStepIndex (previous opts doc s) < totalSteps opts"
  using setStep_index_range [of s opts doc "currentStepIndex s - 1" Previous "[]"]
  by (simp add: previous_def)

lemma skip_index_range:
  "- 1 \<le> currentStepIndex (skip opts s) \<and> currentStepIndex (skip opts s) < totalSteps opts"
  by (simp add: skip_eq totalSteps_def)

lemma reachable_index_range:
  "reachable opts s \<Longrightarrow>
   - 1 \<le> currentStepIndex s \<and> currentStepIndex s < totalSteps opts"
proof (induction rule: reachable.induct)
  case r_init
  show ?case by (simp add: useTour_def totalSteps_def)
next
  case (r_start s doc i)
  then show ?case
    using setStep_index_range [of "s\<lparr>status := Active\<rparr>" opts doc i Next]
    by (simp add: start_def)
next
  case (r_stop s)
  show ?case by (simp add: stop_def totalSteps_def)
next
  case (r_next s doc)
  from r_next.IH show ?case by (rule next_tour_index_range)
next
  case (r_previous s doc)
  from r_previous.IH show ?case by (rule previous_index_range)
next
  case (r_goTo s doc t)
  then show ?case
    by (auto simp: goTo_def Let_def setStep_index totalSteps_def split: IndexOrId.split)
next
  case (r_skip s)
  show ?case by (rule skip_index_range)
next
  case (r_pause s)
  then show ?case by (simp add: pause_def)
next
  case (r_resume s)
  then show ?case by (simp add: resume_def)
next
  case (r_complete s)
  show ?case by (simp add: complete_tour_eq totalSteps_def)
next
  case (r_keydown s doc key)
  then show ?case
    using next_tour_index_range [of s opts doc] previous_index_range [of s opts doc]
      skip_index_range [of opts s]
    by (simp add: handleKeydown_def split: Key.split)
next
  case (r_click s doc el)
  then show ?case
    using skip_index_range [of opts s]
    by (simp add: handleClickOutside_def split: option.split)
next
  case (r_resize s doc)
  then show ?case by (simp add: handleResize_def)
next
  case (r_frame s doc)
  then show ?case by simp
next
  case (r_timeout s doc k)
  then show ?case
    using next_tour_index_range
      [of "s\<lparr>timeouts := take k (timeouts s) @ drop (Suc k) (timeouts s)\<rparr>" opts doc]
    by (simp add: runTimeout_def autoAdvanceTimer_def)
qed

text \<open>
  The controls and the listeners keep a rectangle only together with its element; the
  re-measuring callback of \<open>requestAnimationFrame\<close> is not among them.
\<close>

lemma setStep_keeps_target:
  "targetRect s \<noteq> None \<longrightarrow> targetElement s \<noteq> None \<Longrightarrow>
   targetRect (setStep opts doc i d after s) \<noteq> None \<longrightarrow>
   targetElement (setStep opts doc i d after s) \<noteq> None"
  by (cases "stepAt opts i") (simp_all add: setStep_None setStep_targetRect)

lemma next_tour_keeps_target:
  "targetRect s \<noteq> None \<longrightarrow> targetElement s \<noteq> None \<Longrightarrow>
   targetRect (next_tour opts doc s) \<noteq> None \<longrightarrow> targetElement (next_tour opts doc s) \<noteq> None"
  using setStep_keeps_target [of s opts doc "currentStepIndex s + 1" Next "[]"]
  by (simp add: next_tour_def complete_tour_eq)

lemma controls_keep_target:
  assumes "targetRect s \<noteq> None \<longrightarrow> targetElement s \<noteq> None"
  shows "targetRect (start opts doc i s) \<noteq> None \<longrightarrow> targetElement (start opts doc i s) \<noteq> None"
    and "targetRect (stop s) \<noteq> None \<longrightarrow> targetElement (stop s) \<noteq> None"
    and "targetRect (next_tour opts doc s) \<noteq> None \<longrightarrow> targetElement (next_tour opts doc s) \<noteq> None"
    and "targetRect (previous opts doc s) \<noteq> None \<longrightarrow> targetElement (previous opts doc s) \<noteq> None"
    and "targetRect (goTo opts doc t s) \<noteq> None \<longrightarrow> targetElement (goTo opts doc t s) \<noteq> None"
    and "targetRect (skip opts s) \<noteq> None \<longrightarrow> targetElement (skip opts s) \<noteq> None"
    and "targetRect (pause s) \<noteq> None \<longrightarrow> targetElement (pause s) \<noteq> None"
    and "targetRect (resume s) \<noteq> None \<longrightarrow> targetElement (resume s) \<noteq> None"
    and "targetRect (complete_tour opts s) \<noteq> None \<longrightarrow> targetElement (complete_tour opts s) \<noteq> None"
    and "targetRect (handleResize opts doc s) \<noteq> None \<longrightarrow>
         targetElement (handleResize opts doc s) \<noteq> None"
proof -
  show "targetRect (start opts doc i s) \<noteq> None \<longrightarrow> targetElement (start opts doc i s) \<noteq> None"
    using assms setStep_keeps_target [of "s\<lparr>status := Active\<rparr>" opts doc i Next]
    by (simp add: start_def)
  show "targetRect (stop s) \<noteq> None \<longrightarrow> targetElement (stop s) \<noteq> None"
    by (simp add: stop_def)
  show "targetRect (next_tour opts doc s) \<noteq> None \<longrightarrow> targetElement (next_tour opts doc s) \<noteq> None"
    using assms by (rule next_tour_keeps_target)
  show "targetRect (previous opts doc s) \<noteq> None \<longrightarrow> targetElement (previous opts doc s) \<noteq> None"
    using assms setStep_keeps_target [of s opts doc "currentStepIndex s - 1" Previous "[]"]
    by (simp add: previous_def)
  show "targetRect (goTo opts doc t s) \<noteq> None \<longrightarrow> targetElement (goTo opts doc t s) \<noteq> None"
    using assms setStep_keeps_target [of s opts doc _ _ "[]"]
    by (simp add: goTo_def Let_def split: IndexOrId.split)
  show "targetRect (skip opts s) \<noteq> None \<longrightarrow> targetElement (skip opts s) \<noteq> None"
    by (simp add: skip_eq)
  show "targetRect (pause s) \<noteq> None \<longrightarrow> targetElement (pause s) \<noteq> None"
    using assms by (simp add: pause_def)
  show "targetRect (resume s) \<noteq> None \<longrightarrow> targetElement (resume s) \<noteq> None"
    using assms by (simp add: resume_def)
  show "targetRect (complete_tour opts s) \<noteq> None \<longrightarrow> targetElement (complete_tour opts s) \<noteq> None"
    by (simp add: complete_tour_eq)
  show "targetRect (handleResize opts doc s) \<noteq> None \<longrightarrow>
         targetElement (handleResize opts doc s) \<noteq> None"
    using assms by (simp add: handleResize_def targetRect_updateTarget)
qed

text \<open>
  Claim C9. \<open>currentStep\<close> is present exactly for an index from 0 up to the last step
  (\<open>currentStep_iff\<close>), and the controls keep a rectangle only with its element
  (\<open>controls_keep_target\<close>). The callback that \<open>updateTarget\<close> registers with
  \<open>requestAnimationFrame\<close> does not: after \<open>start\<close> and \<open>stop\<close> it stores a rectangle
  while the target element is \<open>null\<close>.
\<close>

theorem C9_stale_animation_frame:
  "reachable (test_options [test_step ''step1''])
     (runAnimationFrame test_document
        (stop (start (test_options [test_step ''step1'']) test_document 0 useTour))) \<and>
   targetElement
     (runAnimationFrame test_document
        (stop (start (test_options [test_step ''step1'']) test_document 0 useTour))) = None \<and>
   targetRect
     (runAnimationFrame test_document
        (stop (start (test_options [test_step ''step1'']) test_document 0 useTour))) =
     Some \<lparr>rect_x = 0, rect_y = 0, rect_width = 0, rect_height = 0\<rparr>"
proof (intro conjI)
  show "reachable (test_options [test_step ''step1''])
     (runAnimationFrame test_document
        (stop (start (test_options [test_step ''step1'']) test_document 0 useTour)))"
    by (intro r_frame r_stop r_start r_init)
  show "targetElement
     (runAnimationFrame test_document
        (stop (start (test_options [test_step ''step1'']) test_document 0 useTour))) = None"
    by code_simp
  show "targetRect
     (runAnimationFrame test_document
        (stop (start (test_options [test_step ''step1'']) test_document 0 useTour))) =
     Some \<lparr>rect_x = 0, rect_y = 0, rect_width = 0, rect_height = 0\<rparr>"
    by code_simp
qed

end
